theory Spec2Isabelle
  imports Main
begin

section \<open>The JVMTI agent of thread\_start\_catch.cpp\<close>

text \<open>
  The agent is one C++ file. It keeps two globals (\<open>thread_start\<close> and
  \<open>thread_name_field\<close>), calls the host (JVMTI and JNI) through a handful of
  functions, and writes to \<open>std::cerr\<close>. The model threads a state holding the two globals,
  the list of host calls issued so far and the text written to \<open>std::cerr\<close>. What the host
  answers is a parameter (\<open>host\<close>).

  Handles and pointers are natural numbers, \<open>0\<close> being the null pointer. Operations whose
  behaviour C++ leaves undefined (building a \<open>std::string\<close> from a null pointer, streaming a
  null \<open>const char *\<close>, \<open>strcmp\<close> on a null pointer, reading an uninitialised local) end
  the run with \<open>Inl\<close>, carrying the state reached so far.
\<close>

subsection \<open>Handles, host calls and state\<close>

type_synonym ptr = nat
type_synonym jclass = nat
type_synonym jthread = nat
type_synonym jmethodID = nat
type_synonym jfieldID = nat
type_synonym jstring = nat

definition nullptr :: nat where
  "nullptr = 0"

text \<open>\<open>jvmtiFrameInfo\<close> of jvmti.h: a method (the member \<open>method\<close>, here \<open>frame_method\<close>) and a location.\<close>

record jvmtiFrameInfo =
  frame_method :: jmethodID
  location :: int

text \<open>
  The host. \<open>None\<close> (or \<open>False\<close>) is an error code different from \<open>JNI_OK\<close>. A buffer the
  host hands out is a pointer; \<open>mem\<close> gives the bytes stored from that pointer on.
  \<open>stack\<close> is the thread's call stack, innermost frame first.
\<close>

record host =
  GetClassSignature :: "jclass \<Rightarrow> ptr option"
  GetMethodName :: "jmethodID \<Rightarrow> ptr option"
  GetThreadInfo :: "jthread \<Rightarrow> ptr option"
  GetStackTrace_fails :: "jthread \<Rightarrow> nat \<Rightarrow> nat \<Rightarrow> bool"
  stack :: "jthread \<Rightarrow> jvmtiFrameInfo list"
  GetMethodDeclaringClass :: "jmethodID \<Rightarrow> jclass option"
  GetMethodID :: "jclass \<Rightarrow> string \<Rightarrow> string \<Rightarrow> jmethodID"
  GetFieldID :: "jclass \<Rightarrow> string \<Rightarrow> string \<Rightarrow> jfieldID"
  SetFieldModificationWatch :: "jclass \<Rightarrow> jfieldID \<Rightarrow> bool"
  GetStringUTFChars :: "jstring \<Rightarrow> ptr"
  mem :: "ptr \<Rightarrow> char list"

text \<open>
  Modelled from the spec: the host's stack-frame query (JVMTI \<open>GetStackTrace\<close>, declared in
  jvmti.h, which is not part of the repository). It either fails or returns up to
  \<open>max_frame_count\<close> frames of the thread's stack starting at depth \<open>start_depth\<close>.
\<close>

definition GetStackTrace :: "host \<Rightarrow> jthread \<Rightarrow> nat \<Rightarrow> nat \<Rightarrow> jvmtiFrameInfo list option" where
  "GetStackTrace h thread start_depth max_frame_count =
     (if GetStackTrace_fails h thread start_depth max_frame_count then None
      else Some (take max_frame_count (drop start_depth (stack h thread))))"

datatype call =
    Call_Deallocate ptr
  | Call_GetClassSignature jclass
  | Call_GetMethodName jmethodID
  | Call_GetThreadInfo jthread
  | Call_GetStackTrace jthread nat nat
  | Call_GetMethodDeclaringClass jmethodID
  | Call_GetMethodID jclass string string
  | Call_GetFieldID jclass string string
  | Call_SetFieldModificationWatch jclass jfieldID
  | Call_GetStringUTFChars jstring
  | Call_ReleaseStringUTFChars jstring ptr

record state =
  thread_start :: jmethodID
  thread_name_field :: jfieldID
  calls :: "call list"
  cerr :: string

text \<open>\<open>static jmethodID thread_start{0}; static jfieldID thread_name_field{0};\<close>\<close>

definition init :: state where
  "init = \<lparr>thread_start = 0, thread_name_field = 0, calls = [], cerr = []\<rparr>"

datatype ub =
    NullStringConstruct
  | NullStreamInsert
  | NullStrcmp
  | UninitializedClassRead

type_synonym result = "(ub \<times> state) + state"

definition state_of :: "result \<Rightarrow> state" where
  "state_of r = (case r of Inl (e, s) \<Rightarrow> s | Inr s \<Rightarrow> s)"

definition issue :: "call \<Rightarrow> state \<Rightarrow> state" where
  "issue c s = s\<lparr>calls := calls s @ [c]\<rparr>"

definition print :: "string \<Rightarrow> state \<Rightarrow> state" where
  "print txt s = s\<lparr>cerr := cerr s @ txt\<rparr>"

subsection \<open>C strings\<close>

text \<open>The string a \<open>char *\<close> denotes: the bytes before the first NUL.\<close>

definition c_str :: "char list \<Rightarrow> string" where
  "c_str bytes = takeWhile (\<lambda>c. c \<noteq> CHR 0x00) bytes"

text \<open>\<open>strcmp\<close> on two such strings: the difference of the first bytes that differ.\<close>

fun strcmp :: "string \<Rightarrow> string \<Rightarrow> int" where
  "strcmp [] [] = 0"
| "strcmp [] (y # ys) = - of_char y"
| "strcmp (x # xs) [] = of_char x"
| "strcmp (x # xs) (y # ys) = (if x = y then strcmp xs ys else of_char x - of_char y)"

text \<open>\<open>#define THREAD_TO_CATCH "HighResTimer"\<close>\<close>

definition THREAD_TO_CATCH :: string where
  "THREAD_TO_CATCH = ''HighResTimer''"

text \<open>\<open>std::cerr << p\<close> for a \<open>const char *\<close>: undefined on a null pointer.\<close>

definition stream_cstr :: "host \<Rightarrow> ptr \<Rightarrow> state \<Rightarrow> result" where
  "stream_cstr h p s =
     (if p = nullptr then Inl (NullStreamInsert, s) else Inr (print (c_str (mem h p)) s))"

subsection \<open>Holder\<close>

record Holder =
  ptr_member :: ptr

text \<open>\<open>Holder() = default\<close>, with the member initialiser \<open>ptr_{nullptr}\<close>.\<close>

definition Holder_default :: Holder where
  "Holder_default = \<lparr>ptr_member = nullptr\<rparr>"

text \<open>\<open>explicit Holder(T *ptr)\<close>\<close>

definition Holder_from :: "ptr \<Rightarrow> Holder" where
  "Holder_from p = \<lparr>ptr_member = p\<rparr>"

definition valid :: "Holder \<Rightarrow> bool" where
  "valid x = (ptr_member x \<noteq> nullptr)"

definition get :: "Holder \<Rightarrow> ptr" where
  "get x = ptr_member x"

definition deallocate :: "Holder \<Rightarrow> state \<Rightarrow> state" where
  "deallocate x s = (if valid x then issue (Call_Deallocate (ptr_member x)) s else s)"

text \<open>\<open>~Holder()\<close>\<close>

definition Holder_destroy :: "Holder \<Rightarrow> state \<Rightarrow> state" where
  "Holder_destroy x s = deallocate x s"

text \<open>
  \<open>Holder(Holder &&other)\<close>: the new object starts from the member initialiser, calls
  \<open>deallocate\<close>, sets its pointer to null and swaps with \<open>other\<close>. The result is the new
  object, what is left of \<open>other\<close>, and the state.
\<close>

definition Holder_move :: "Holder \<Rightarrow> state \<Rightarrow> Holder \<times> Holder \<times> state" where
  "Holder_move other s =
     (let this = Holder_default;
          s1 = deallocate this s;
          this1 = this\<lparr>ptr_member := nullptr\<rparr>
      in (this1\<lparr>ptr_member := ptr_member other\<rparr>, other\<lparr>ptr_member := ptr_member this1\<rparr>, s1))"

text \<open>
  \<open>Holder &operator=(Holder &&other) = default\<close>: the defaulted operator assigns member by
  member, and moving a raw pointer copies it. The result is the target and what is left of
  \<open>other\<close>; no host call is made.
\<close>

definition Holder_move_assign :: "Holder \<Rightarrow> Holder \<Rightarrow> Holder \<times> Holder" where
  "Holder_move_assign this other = (this\<lparr>ptr_member := ptr_member other\<rparr>, other)"

text \<open>Scopes that use the guard: a guard built from \<open>p\<close> is moved into a new one, or a
  guard built from \<open>p\<close> is assigned, by move, from one built from \<open>q\<close>; at the end of the
  scope both objects are destroyed, the one declared last first.\<close>

definition move_construct_scope :: "ptr \<Rightarrow> state \<Rightarrow> state" where
  "move_construct_scope p s =
     (let a = Holder_from p;
          (b, a1, s1) = Holder_move a s
      in Holder_destroy a1 (Holder_destroy b s1))"

definition move_assign_scope :: "ptr \<Rightarrow> ptr \<Rightarrow> state \<Rightarrow> state" where
  "move_assign_scope p q s =
     (let a = Holder_from p;
          b = Holder_from q;
          (a1, b1) = Holder_move_assign a b
      in Holder_destroy a1 (Holder_destroy b1 s))"

subsection \<open>Symbol resolution\<close>

definition getClassSignature :: "host \<Rightarrow> jclass \<Rightarrow> state \<Rightarrow> Holder \<times> state" where
  "getClassSignature h cls s =
     (let s1 = issue (Call_GetClassSignature cls) s in
      case GetClassSignature h cls of
        None \<Rightarrow> (Holder_from nullptr, print ''failed to take class signature'' s1)
      | Some signature \<Rightarrow> (Holder_from signature, s1))"

definition getMethodName :: "host \<Rightarrow> jmethodID \<Rightarrow> state \<Rightarrow> Holder \<times> state" where
  "getMethodName h m s =
     (let s1 = issue (Call_GetMethodName m) s in
      case GetMethodName h m of
        None \<Rightarrow> (Holder_from nullptr, print ''failed to take class signature'' s1)
      | Some name \<Rightarrow> (Holder_from name, s1))"

subsection \<open>Stack capture\<close>

definition MAX_FRAMES :: nat where
  "MAX_FRAMES = 10"

text \<open>
  The body of the loop of \<open>printStackTrace\<close> for one frame. When
  \<open>GetMethodDeclaringClass\<close> fails the warning is written and the code goes on to read
  \<open>cls\<close>, which was never assigned. The two holders are destroyed at the end of the
  iteration, \<open>methodName\<close> first.
\<close>

definition render_frame :: "host \<Rightarrow> jvmtiFrameInfo \<Rightarrow> state \<Rightarrow> result" where
  "render_frame h frame s =
     (let s1 = issue (Call_GetMethodDeclaringClass (frame_method frame)) s in
      case GetMethodDeclaringClass h (frame_method frame) of
        None \<Rightarrow> Inl (UninitializedClassRead, print ''frame skip. Failed to get classID\<newline>'' s1)
      | Some cls \<Rightarrow>
          (let (className, s2) = getClassSignature h cls s1;
               (methodName, s3) = getMethodName h (frame_method frame) s2
           in case stream_cstr h (get className) s3 of
                Inl e \<Rightarrow> Inl e
              | Inr s4 \<Rightarrow>
                  (case stream_cstr h (get methodName) (print ''#'' s4) of
                     Inl e \<Rightarrow> Inl e
                   | Inr s5 \<Rightarrow>
                       Inr (Holder_destroy className
                             (Holder_destroy methodName (print ''\<newline>'' s5))))))"

text \<open>\<open>for (auto i = 0; i < count; i++)\<close> over the frames the host returned.\<close>

fun render_frames :: "host \<Rightarrow> jvmtiFrameInfo list \<Rightarrow> state \<Rightarrow> result" where
  "render_frames h [] s = Inr s"
| "render_frames h (frame # frames) s =
     (case render_frame h frame s of
        Inl e \<Rightarrow> Inl e
      | Inr s1 \<Rightarrow> render_frames h frames s1)"

definition print_header :: "host \<Rightarrow> jthread \<Rightarrow> state \<Rightarrow> result" where
  "print_header h thread s =
     (let s1 = issue (Call_GetThreadInfo thread) s in
      case GetThreadInfo h thread of
        None \<Rightarrow> Inr s1
      | Some name \<Rightarrow>
          (case stream_cstr h name (print ''========= '' s1) of
             Inl e \<Rightarrow> Inl e
           | Inr s2 \<Rightarrow> Inr (print '' ==============\<newline>'' s2)))"

definition printStackTrace :: "host \<Rightarrow> jthread \<Rightarrow> state \<Rightarrow> result" where
  "printStackTrace h thread s =
     (case print_header h thread s of
        Inl e \<Rightarrow> Inl e
      | Inr s1 \<Rightarrow>
          (let s2 = issue (Call_GetStackTrace thread 2 MAX_FRAMES) s1 in
           case GetStackTrace h thread 2 MAX_FRAMES of
             None \<Rightarrow> Inr (print ''GetStackTrace failed\<newline>'' s2)
           | Some frames \<Rightarrow> render_frames h frames s2))"

subsection \<open>The event handlers\<close>

definition Thread_signature :: string where
  "Thread_signature = ''Ljava/lang/Thread;''"

text \<open>
  \<open>ClassLoad\<close>. \<open>std::string s(name.get())\<close> is undefined when \<open>name\<close> holds the null
  pointer. \<open>name\<close> is destroyed when the handler returns.
\<close>

definition ClassLoad :: "host \<Rightarrow> jclass \<Rightarrow> state \<Rightarrow> result" where
  "ClassLoad h klass s =
     (let (name, s1) = getClassSignature h klass s in
      if get name = nullptr then Inl (NullStringConstruct, s1)
      else
        (let str = c_str (mem h (get name)) in
         if str = Thread_signature then
           (let s2 = (issue (Call_GetMethodID klass ''start'' ''()V'') s1)
                       \<lparr>thread_start := GetMethodID h klass ''start'' ''()V''\<rparr>;
                s3 = (issue (Call_GetFieldID klass ''name'' ''Ljava/lang/String;'') s2)
                       \<lparr>thread_name_field := GetFieldID h klass ''name'' ''Ljava/lang/String;''\<rparr>;
                s4 = issue (Call_SetFieldModificationWatch klass (thread_name_field s3)) s3;
                s5 = (if SetFieldModificationWatch h klass (thread_name_field s3) then s4
                      else print ''failed to attach field watcher\<newline>'' s4)
            in Inr (Holder_destroy name s5))
         else Inr (Holder_destroy name s1)))"

text \<open>
  \<open>OnFieldModification\<close>; of its arguments only \<open>thread\<close>, \<open>field\<close> and \<open>new_value\<close>
  are read. \<open>strcmp\<close> on a null pointer is undefined.
\<close>

definition OnFieldModification :: "host \<Rightarrow> jthread \<Rightarrow> jfieldID \<Rightarrow> jstring \<Rightarrow> state \<Rightarrow> result" where
  "OnFieldModification h thread field new_value s =
     (if field \<noteq> thread_name_field s then Inr s
      else
        (let s1 = issue (Call_GetStringUTFChars new_value) s;
             name = GetStringUTFChars h new_value
         in if name = nullptr then Inl (NullStrcmp, s1)
            else if strcmp (c_str (mem h name)) THREAD_TO_CATCH \<noteq> 0 then
              Inr (issue (Call_ReleaseStringUTFChars new_value name) s1)
            else
              (let s2 = print (''Thread '' @ c_str (mem h name) @ '' is about to get started\<newline>'') s1;
                   s3 = issue (Call_ReleaseStringUTFChars new_value name) s2
               in printStackTrace h thread s3)))"

subsection \<open>Sequences of events\<close>

datatype event =
    ClassLoadEv jclass
  | FieldModificationEv jthread jfieldID jstring

fun deliver :: "host \<Rightarrow> event \<Rightarrow> state \<Rightarrow> result" where
  "deliver h (ClassLoadEv klass) s = ClassLoad h klass s"
| "deliver h (FieldModificationEv thread field new_value) s =
     OnFieldModification h thread field new_value s"

text \<open>
  The host delivers events one after the other; each comes with what the host answers
  while its handler runs. Undefined behaviour in one handler ends the run.
\<close>

fun run :: "(host \<times> event) list \<Rightarrow> state \<Rightarrow> result" where
  "run [] s = Inr s"
| "run ((h, e) # evs) s =
     (case deliver h e s of
        Inl err \<Rightarrow> Inl err
      | Inr s1 \<Rightarrow> run evs s1)"

subsection \<open>Reading the recorded calls\<close>

fun is_watch :: "call \<Rightarrow> bool" where
  "is_watch (Call_SetFieldModificationWatch klass field) = True"
| "is_watch _ = False"

fun is_release :: "call \<Rightarrow> bool" where
  "is_release (Call_ReleaseStringUTFChars str chars) = True"
| "is_release _ = False"

fun is_decode :: "call \<Rightarrow> bool" where
  "is_decode (Call_GetStringUTFChars str) = True"
| "is_decode _ = False"

fun is_stack_request :: "call \<Rightarrow> bool" where
  "is_stack_request (Call_GetStackTrace thread start_depth max_frame_count) = True"
| "is_stack_request _ = False"

text \<open>The calls a symbol resolution and the destruction of its holder make.\<close>

fun resolve_call :: "call \<Rightarrow> bool" where
  "resolve_call (Call_Deallocate p) = True"
| "resolve_call (Call_GetClassSignature cls) = True"
| "resolve_call (Call_GetMethodName m) = True"
| "resolve_call _ = False"

text \<open>The calls a stack capture makes.\<close>

fun capture_call :: "call \<Rightarrow> bool" where
  "capture_call (Call_GetThreadInfo thread) = True"
| "capture_call (Call_GetStackTrace thread start_depth max_frame_count) = True"
| "capture_call (Call_GetMethodDeclaringClass m) = True"
| "capture_call c = resolve_call c"

text \<open>The watch requests issued so far, oldest first.\<close>

definition watch_requests :: "state \<Rightarrow> call list" where
  "watch_requests s = filter is_watch (calls s)"

text \<open>
  The methods of the frames a list of calls starts to render: each iteration of the loop of
  \<open>printStackTrace\<close> begins with \<open>GetMethodDeclaringClass\<close> on the frame's method.
\<close>

fun frame_queries :: "call list \<Rightarrow> jmethodID list" where
  "frame_queries [] = []"
| "frame_queries (Call_GetMethodDeclaringClass m # cs) = m # frame_queries cs"
| "frame_queries (c # cs) = frame_queries cs"

text \<open>What a handler run from \<open>s\<close> and ending in \<open>s'\<close> added to the calls and to \<open>std::cerr\<close>.\<close>

definition new_calls :: "state \<Rightarrow> state \<Rightarrow> call list" where
  "new_calls s s' = drop (length (calls s)) (calls s')"

definition new_output :: "state \<Rightarrow> state \<Rightarrow> string" where
  "new_output s s' = drop (length (cerr s)) (cerr s')"

text \<open>
  The signature \<open>ClassLoad\<close> resolves for a class: none when the host's query fails (or
  hands out a null pointer).
\<close>

definition resolved_signature :: "host \<Rightarrow> jclass \<Rightarrow> string option" where
  "resolved_signature h klass =
     (case GetClassSignature h klass of
        None \<Rightarrow> None
      | Some p \<Rightarrow> if p = nullptr then None else Some (c_str (mem h p)))"

text \<open>The watch request an event leads to: one for a class-load event whose resolved
  signature is that of \<open>java.lang.Thread\<close>, none for any other event.\<close>

fun arming_request :: "host \<times> event \<Rightarrow> call list" where
  "arming_request (h, ClassLoadEv klass) =
     (if resolved_signature h klass = Some Thread_signature
      then [Call_SetFieldModificationWatch klass (GetFieldID h klass ''name'' ''Ljava/lang/String;'')]
      else [])"
| "arming_request (h, FieldModificationEv thread field new_value) = []"

definition arming_requests :: "(host \<times> event) list \<Rightarrow> call list" where
  "arming_requests evs = concat (map arming_request evs)"

text \<open>The header \<open>printStackTrace\<close> writes for a thread whose name the host resolves.\<close>

definition header_text :: "host \<Rightarrow> jthread \<Rightarrow> string" where
  "header_text h thread =
     (case GetThreadInfo h thread of
        None \<Rightarrow> []
      | Some name \<Rightarrow> ''========= '' @ c_str (mem h name) @ '' ==============\<newline>'')"

text \<open>
  The line \<open>printStackTrace\<close> writes for a frame all of whose queries the host answers with
  a buffer: the class signature, \<open>#\<close>, the method name and a newline. There is none when
  a query fails (or hands out a null pointer).
\<close>

definition frame_line :: "host \<Rightarrow> jvmtiFrameInfo \<Rightarrow> string option" where
  "frame_line h frame =
     (case GetMethodDeclaringClass h (frame_method frame) of
        None \<Rightarrow> None
      | Some cls \<Rightarrow>
          (case GetClassSignature h cls of
             None \<Rightarrow> None
           | Some p \<Rightarrow>
               (case GetMethodName h (frame_method frame) of
                  None \<Rightarrow> None
                | Some q \<Rightarrow>
                    if p = nullptr \<or> q = nullptr then None
                    else Some (c_str (mem h p) @ ''#'' @ c_str (mem h q) @ ''\<newline>''))))"

text \<open>The lines of a list of frames, one after the other, when every frame has one.\<close>

fun frame_lines :: "host \<Rightarrow> jvmtiFrameInfo list \<Rightarrow> string option" where
  "frame_lines h [] = Some []"
| "frame_lines h (frame # frames) =
     (case frame_line h frame of
        None \<Rightarrow> None
      | Some l \<Rightarrow>
          (case frame_lines h frames of
             None \<Rightarrow> None
           | Some ls \<Rightarrow> Some (l @ ls)))"

subsection \<open>Concrete hosts\<close>

text \<open>
  A host that answers every query. Classes 4 and 5 have the signature of
  \<open>java.lang.Thread\<close>, any other class that of \<open>java.lang.Object\<close>; the \<open>name\<close> field
  of class \<open>k\<close> is \<open>30 + k\<close> and its \<open>start\<close> method \<open>20 + k\<close>. String 7 is
  \<open>HighResTimer\<close>, string 9 is \<open>highrestimer\<close>, any other string is \<open>OtherThread\<close>.
  Every thread is named \<open>main\<close> and has a stack of four frames, the methods 11 to 14,
  innermost first; every method is named \<open>run\<close> and declared by class 2.
\<close>

definition NUL :: char where
  "NUL = CHR 0x00"

definition demo_mem :: "ptr \<Rightarrow> char list" where
  "demo_mem p =
     (if p = 100 then ''Ljava/lang/Thread;'' @ [NUL]
      else if p = 101 then ''Ljava/lang/Object;'' @ [NUL]
      else if p = 102 then ''HighResTimer'' @ [NUL]
      else if p = 103 then ''OtherThread'' @ [NUL]
      else if p = 104 then ''main'' @ [NUL]
      else if p = 105 then ''run'' @ [NUL]
      else if p = 106 then ''highrestimer'' @ [NUL]
      else [NUL])"

definition demo_stack :: "jvmtiFrameInfo list" where
  "demo_stack =
     [\<lparr>frame_method = 11, location = 0\<rparr>, \<lparr>frame_method = 12, location = 0\<rparr>,
      \<lparr>frame_method = 13, location = 0\<rparr>, \<lparr>frame_method = 14, location = 0\<rparr>]"

definition demo_host :: host where
  "demo_host =
     \<lparr>GetClassSignature = (\<lambda>cls. if cls = 4 \<or> cls = 5 then Some 100 else Some 101),
      GetMethodName = (\<lambda>m. Some 105),
      GetThreadInfo = (\<lambda>thread. Some 104),
      GetStackTrace_fails = (\<lambda>thread start_depth max_frame_count. False),
      stack = (\<lambda>thread. demo_stack),
      GetMethodDeclaringClass = (\<lambda>m. Some 2),
      GetMethodID = (\<lambda>klass name sig. 20 + klass),
      GetFieldID = (\<lambda>klass name sig. 30 + klass),
      SetFieldModificationWatch = (\<lambda>klass field. True),
      GetStringUTFChars = (\<lambda>str. if str = 7 then 102 else if str = 9 then 106 else 103),
      mem = demo_mem\<rparr>"

text \<open>Hosts on which one query fails.\<close>

definition no_signature_host :: host where
  "no_signature_host = demo_host\<lparr>GetClassSignature := (\<lambda>cls. None)\<rparr>"

definition no_declaring_class_host :: host where
  "no_declaring_class_host = demo_host\<lparr>GetMethodDeclaringClass := (\<lambda>m. None)\<rparr>"

definition no_method_name_host :: host where
  "no_method_name_host = demo_host\<lparr>GetMethodName := (\<lambda>m. None)\<rparr>"

definition no_stack_host :: host where
  "no_stack_host = demo_host\<lparr>GetStackTrace_fails := (\<lambda>thread start_depth max_frame_count. True)\<rparr>"

text \<open>A host whose methods have different names: method 13 is \<open>create\<close>, every other
  method \<open>main\<close>.\<close>

definition capture_host :: host where
  "capture_host =
     demo_host\<lparr>GetMethodName := (\<lambda>m. if m = 13 then Some 107 else Some 108),
               mem := (\<lambda>p. if p = 107 then ''create'' @ [NUL]
                            else if p = 108 then ''main'' @ [NUL]
                            else demo_mem p)\<rparr>"

section \<open>Properties\<close>

subsection \<open>State updates and C strings\<close>

lemma issue_simps:
  "calls (issue c s) = calls s @ [c]"
  "cerr (issue c s) = cerr s"
  "thread_start (issue c s) = thread_start s"
  "thread_name_field (issue c s) = thread_name_field s"
  by (simp_all add: issue_def)

lemma print_simps:
  "calls (print t s) = calls s"
  "cerr (print t s) = cerr s @ t"
  "thread_start (print t s) = thread_start s"
  "thread_name_field (print t s) = thread_name_field s"
  by (simp_all add: print_def)

lemma deallocate_simps:
  "calls (deallocate x s) = calls s @ (if ptr_member x = nullptr then [] else [Call_Deallocate (ptr_member x)])"
  "cerr (deallocate x s) = cerr s"
  "thread_start (deallocate x s) = thread_start s"
  "thread_name_field (deallocate x s) = thread_name_field s"
  by (simp_all add: deallocate_def valid_def issue_simps)

lemma state_of_simps:
  "state_of (Inl (e, s)) = s"
  "state_of (Inr s) = s"
  by (simp_all add: state_of_def)

lemma of_char_int_eq_0: "(of_char x = (0::int)) = (x = CHR 0x00)"
proof -
  have "(of_char x = (0::int)) = (of_char x = (of_char (CHR 0x00) :: int))"
    by simp
  also have "\<dots> = (x = CHR 0x00)"
    by (rule of_char_eq_iff)
  finally show ?thesis .
qed

lemma strcmp_eq_0:
  "CHR 0x00 \<notin> set a \<Longrightarrow> CHR 0x00 \<notin> set b \<Longrightarrow> (strcmp a b = 0) = (a = b)"
proof (induction a b rule: strcmp.induct)
  case 1
  then show ?case by simp
next
  case (2 y ys)
  then show ?case by (auto simp: of_char_int_eq_0)
next
  case (3 x xs)
  then show ?case by (auto simp: of_char_int_eq_0)
next
  case (4 x xs y ys)
  then show ?case by auto
qed

lemma c_str_no_nul: "CHR 0x00 \<notin> set (c_str bytes)"
  by (induction bytes) (auto simp: c_str_def)

lemma strcmp_target:
  "(strcmp (c_str bytes) THREAD_TO_CATCH = 0) = (c_str bytes = THREAD_TO_CATCH)"
proof (rule strcmp_eq_0 [OF c_str_no_nul])
  show "CHR 0x00 \<notin> set THREAD_TO_CATCH"
    by (simp add: THREAD_TO_CATCH_def)
qed

subsection \<open>The class-load handler\<close>

lemma getClassSignature_Some:
  "GetClassSignature h cls = Some p \<Longrightarrow>
   getClassSignature h cls s = (Holder_from p, issue (Call_GetClassSignature cls) s)"
  by (simp add: getClassSignature_def)

lemma getClassSignature_None:
  "GetClassSignature h cls = None \<Longrightarrow>
   getClassSignature h cls s =
     (Holder_from nullptr, print ''failed to take class signature'' (issue (Call_GetClassSignature cls) s))"
  by (simp add: getClassSignature_def)

lemma resolved_signature_SomeD:
  "resolved_signature h klass = Some sg \<Longrightarrow>
   \<exists>p. GetClassSignature h klass = Some p \<and> p \<noteq> nullptr \<and> sg = c_str (mem h p)"
  by (auto simp: resolved_signature_def split: option.splits if_splits)

text \<open>A class whose signature resolves to something else: the handler asks for the
  signature, frees the buffer and returns.\<close>

lemma ClassLoad_other:
  assumes "GetClassSignature h klass = Some p" and "p \<noteq> nullptr"
    and "c_str (mem h p) \<noteq> Thread_signature"
  shows "ClassLoad h klass s =
           Inr (issue (Call_Deallocate p) (issue (Call_GetClassSignature klass) s))"
  using assms
  by (simp add: ClassLoad_def getClassSignature_Some Holder_from_def get_def
      Holder_destroy_def deallocate_def valid_def)

text \<open>A class whose signature resolves to that of \<open>java.lang.Thread\<close>: the handler
  stores both identities and requests the watch, whatever was stored before.\<close>

lemma ClassLoad_Thread:
  assumes "GetClassSignature h klass = Some p" and "p \<noteq> nullptr"
    and "c_str (mem h p) = Thread_signature"
  shows "\<exists>s'. ClassLoad h klass s = Inr s'
           \<and> thread_start s' = GetMethodID h klass ''start'' ''()V''
           \<and> thread_name_field s' = GetFieldID h klass ''name'' ''Ljava/lang/String;''
           \<and> (\<exists>pre post. calls s' = calls s @ pre
                  @ [Call_SetFieldModificationWatch klass
                       (GetFieldID h klass ''name'' ''Ljava/lang/String;'')] @ post
                \<and> filter is_watch pre = [] \<and> filter is_watch post = [])"
proof -
  let ?f = "GetFieldID h klass ''name'' ''Ljava/lang/String;''"
  let ?pre = "[Call_GetClassSignature klass, Call_GetMethodID klass ''start'' ''()V'',
               Call_GetFieldID klass ''name'' ''Ljava/lang/String;'']"
  obtain s' where s': "ClassLoad h klass s = Inr s'"
    using assms
    by (simp add: ClassLoad_def getClassSignature_Some Holder_from_def get_def Let_def)
  have "thread_start s' = GetMethodID h klass ''start'' ''()V''"
    and "thread_name_field s' = ?f"
    and "calls s' = calls s @ ?pre @ [Call_SetFieldModificationWatch klass ?f] @ [Call_Deallocate p]"
    using assms s'
    by (auto simp: ClassLoad_def getClassSignature_Some Holder_from_def get_def Let_def
        Holder_destroy_def deallocate_simps issue_simps print_simps)
  moreover have "filter is_watch ?pre = []" and "filter is_watch [Call_Deallocate p] = []"
    by simp_all
  ultimately show ?thesis
    using s' by blast
qed

text \<open>
  C10. \<open>ClassLoad\<close> arms only on the signature \<open>Ljava/lang/Thread;\<close>: when the class's
  signature resolves to exactly that string the handler returns having issued one watch
  request, for the class's \<open>name\<close> field; when it resolves to any other string (that of a
  subclass of the thread type included) the handler returns with the stored method
  identity, the stored field identity and the watch requests as they were.
\<close>

theorem ClassLoad_arms_only_on_Thread_signature:
  assumes "resolved_signature h klass = Some sg"
  shows "\<exists>s'. ClassLoad h klass s = Inr s' \<and>
           (if sg = Thread_signature
            then watch_requests s' = watch_requests s
                   @ [Call_SetFieldModificationWatch klass
                        (GetFieldID h klass ''name'' ''Ljava/lang/String;'')]
            else thread_start s' = thread_start s
               \<and> thread_name_field s' = thread_name_field s
               \<and> watch_requests s' = watch_requests s)"
proof -
  obtain p where p: "GetClassSignature h klass = Some p" "p \<noteq> nullptr" "sg = c_str (mem h p)"
    using resolved_signature_SomeD [OF assms] by blast
  show ?thesis
  proof (cases "sg = Thread_signature")
    case True
    with p have "c_str (mem h p) = Thread_signature"
      by simp
    from ClassLoad_Thread [OF p(1) p(2) this, of s] True show ?thesis
      by (auto simp: watch_requests_def)
  next
    case False
    with p have "c_str (mem h p) \<noteq> Thread_signature"
      by simp
    from ClassLoad_other [OF p(1) p(2) this, of s] False show ?thesis
      by (simp add: watch_requests_def issue_simps)
  qed
qed

theorem ClassLoad_arms_only_on_Thread_signature_witness:
  "resolved_signature demo_host 2 = Some ''Ljava/lang/Object;''
   \<and> (\<exists>s'. ClassLoad demo_host 2 init = Inr s'
         \<and> thread_start s' = 0 \<and> thread_name_field s' = 0 \<and> watch_requests s' = [])"
proof -
  have sg: "resolved_signature demo_host 2 = Some ''Ljava/lang/Object;''"
    by (simp add: resolved_signature_def demo_host_def demo_mem_def c_str_def NUL_def
        nullptr_def)
  from ClassLoad_arms_only_on_Thread_signature [OF sg, of init] sg show ?thesis
    by (simp add: Thread_signature_def init_def watch_requests_def)
qed

subsection \<open>The field-modification handler\<close>

lemma new_calls_append: "calls s' = calls s @ cs \<Longrightarrow> new_calls s s' = cs"
  by (simp add: new_calls_def)

lemma new_output_append: "cerr s' = cerr s @ txt \<Longrightarrow> new_output s s' = txt"
  by (simp add: new_output_def)

lemma new_calls_same [simp]: "new_calls s s = []"
  by (simp add: new_calls_def)

lemma new_output_same [simp]: "new_output s s = []"
  by (simp add: new_output_def)

text \<open>
  C5. A field-modification event whose new value decodes to a string other than
  \<open>HighResTimer\<close> (compared byte by byte, so a difference in case counts): the handler
  returns, nothing is written, and the only calls made, when the field is the stored one, are
  the decoding of the string and its release; \<open>printStackTrace\<close> is not entered.
\<close>

theorem OnFieldModification_other_name:
  assumes "GetStringUTFChars h new_value = p" and "p \<noteq> nullptr"
    and "c_str (mem h p) \<noteq> THREAD_TO_CATCH"
  shows "\<exists>s'. OnFieldModification h thread field new_value s = Inr s'
           \<and> new_output s s' = []
           \<and> new_calls s s' =
               (if field = thread_name_field s
                then [Call_GetStringUTFChars new_value, Call_ReleaseStringUTFChars new_value p]
                else [])
           \<and> filter capture_call (new_calls s s') = []"
proof (cases "field = thread_name_field s")
  case True
  let ?s' = "issue (Call_ReleaseStringUTFChars new_value p)
               (issue (Call_GetStringUTFChars new_value) s)"
  have "OnFieldModification h thread field new_value s = Inr ?s'"
    using assms True by (simp add: OnFieldModification_def strcmp_target)
  moreover have "new_output s ?s' = []"
    by (simp add: new_output_def issue_simps)
  moreover have "new_calls s ?s' =
      [Call_GetStringUTFChars new_value, Call_ReleaseStringUTFChars new_value p]"
    by (simp add: new_calls_def issue_simps)
  ultimately show ?thesis
    using True by simp
next
  case False
  then have "OnFieldModification h thread field new_value s = Inr s"
    by (simp add: OnFieldModification_def)
  with False show ?thesis
    by simp
qed

theorem OnFieldModification_other_name_witness:
  "GetStringUTFChars demo_host 9 = 106 \<and> (106::nat) \<noteq> nullptr
   \<and> c_str (mem demo_host 106) \<noteq> THREAD_TO_CATCH
   \<and> (\<exists>s'. OnFieldModification demo_host 3 0 9 init = Inr s'
         \<and> new_output init s' = []
         \<and> new_calls init s' = [Call_GetStringUTFChars 9, Call_ReleaseStringUTFChars 9 106])"
proof -
  have a: "GetStringUTFChars demo_host 9 = 106"
    by (simp add: demo_host_def)
  have b: "(106::nat) \<noteq> nullptr"
    by (simp add: nullptr_def)
  have c: "c_str (mem demo_host 106) \<noteq> THREAD_TO_CATCH"
    by (simp add: demo_host_def demo_mem_def c_str_def NUL_def THREAD_TO_CATCH_def)
  from OnFieldModification_other_name [OF a b c, of 3 0 init] a b c show ?thesis
    by (auto simp: init_def)
qed

subsection \<open>Stack capture\<close>

lemma resolve_calls_facts:
  assumes "list_all resolve_call cs"
  shows "frame_queries cs = []" and "filter is_stack_request cs = []"
    and "list_all capture_call cs"
  using assms
proof (induction cs)
  case Nil
  {
    case 1 show ?case by simp
  next
    case 2 show ?case by simp
  next
    case 3 show ?case by simp
  }
next
  case (Cons c cs)
  {
    case 1 then show ?case using Cons.IH(1) by (cases c) simp_all
  next
    case 2 then show ?case using Cons.IH(2) by (cases c) simp_all
  next
    case 3 then show ?case using Cons.IH(3) by (cases c) simp_all
  }
qed

lemma capture_calls_facts:
  assumes "list_all capture_call cs"
  shows "filter is_watch cs = []" and "filter is_release cs = []"
    and "filter is_decode cs = []"
  using assms
proof (induction cs)
  case Nil
  {
    case 1 show ?case by simp
  next
    case 2 show ?case by simp
  next
    case 3 show ?case by simp
  }
next
  case (Cons c cs)
  {
    case 1 then show ?case using Cons.IH(1) by (cases c) simp_all
  next
    case 2 then show ?case using Cons.IH(2) by (cases c) simp_all
  next
    case 3 then show ?case using Cons.IH(3) by (cases c) simp_all
  }
qed

lemma frame_queries_append: "frame_queries (as @ bs) = frame_queries as @ frame_queries bs"
  by (induction as rule: frame_queries.induct) simp_all

text \<open>One iteration of the loop: the declaring class is asked for first; everything after
  it is symbol resolution. The globals are not written.\<close>

lemma render_frame_effect:
  "\<exists>rest. calls (state_of (render_frame h f s))
            = calls s @ Call_GetMethodDeclaringClass (frame_method f) # rest
         \<and> list_all resolve_call rest"
  by (auto simp: render_frame_def getClassSignature_def getMethodName_def stream_cstr_def
      Holder_destroy_def deallocate_simps issue_simps print_simps state_of_simps
      Holder_from_def get_def Let_def split: option.splits)

lemma render_frame_globals:
  "thread_start (state_of (render_frame h f s)) = thread_start s"
  "thread_name_field (state_of (render_frame h f s)) = thread_name_field s"
  by (auto simp: render_frame_def getClassSignature_def getMethodName_def stream_cstr_def
      Holder_destroy_def deallocate_simps issue_simps print_simps state_of_simps
      Holder_from_def get_def Let_def split: option.splits)

lemma render_frames_effect:
  "\<exists>rest k. calls (state_of (render_frames h fs s)) = calls s @ rest
         \<and> list_all capture_call rest
         \<and> filter is_stack_request rest = []
         \<and> frame_queries rest = take k (map frame_method fs)
         \<and> (\<forall>s'. render_frames h fs s = Inr s' \<longrightarrow> frame_queries rest = map frame_method fs)"
proof (induction fs arbitrary: s)
  case Nil
  have "calls (state_of (render_frames h [] s)) = calls s @ []"
    by (simp add: state_of_simps)
  then show ?case
    by fastforce
next
  case (Cons f fs)
  obtain r1 where r1: "calls (state_of (render_frame h f s))
        = calls s @ Call_GetMethodDeclaringClass (frame_method f) # r1"
      "list_all resolve_call r1"
    using render_frame_effect by blast
  show ?case
  proof (cases "render_frame h f s")
    case (Inl e)
    let ?rest = "Call_GetMethodDeclaringClass (frame_method f) # r1"
    have "calls (state_of (render_frames h (f # fs) s)) = calls s @ ?rest"
      using Inl r1(1) by simp
    moreover have "list_all capture_call ?rest"
      using resolve_calls_facts(3) [OF r1(2)] by simp
    moreover have "filter is_stack_request ?rest = []"
      using resolve_calls_facts(2) [OF r1(2)] by simp
    moreover have "frame_queries ?rest = take 1 (map frame_method (f # fs))"
      using resolve_calls_facts(1) [OF r1(2)] by simp
    moreover have "\<forall>s'. render_frames h (f # fs) s \<noteq> Inr s'"
      using Inl by simp
    ultimately show ?thesis
      by blast
  next
    case (Inr s1)
    obtain r2 k where r2: "calls (state_of (render_frames h fs s1)) = calls s1 @ r2"
        "list_all capture_call r2" "filter is_stack_request r2 = []"
        "frame_queries r2 = take k (map frame_method fs)"
        "\<forall>s'. render_frames h fs s1 = Inr s' \<longrightarrow> frame_queries r2 = map frame_method fs"
      using Cons.IH [of s1] by blast
    let ?rest = "Call_GetMethodDeclaringClass (frame_method f) # r1 @ r2"
    have s1: "calls s1 = calls s @ Call_GetMethodDeclaringClass (frame_method f) # r1"
      using Inr r1(1) by (simp add: state_of_simps)
    have "calls (state_of (render_frames h (f # fs) s)) = calls s @ ?rest"
      using Inr r2(1) s1 by simp
    moreover have "list_all capture_call ?rest"
      using resolve_calls_facts(3) [OF r1(2)] r2(2) by simp
    moreover have "filter is_stack_request ?rest = []"
      using resolve_calls_facts(2) [OF r1(2)] r2(3) by simp
    moreover have "frame_queries ?rest = take (Suc k) (map frame_method (f # fs))"
      using resolve_calls_facts(1) [OF r1(2)] r2(4) by (simp add: frame_queries_append)
    moreover have "\<forall>s'. render_frames h (f # fs) s = Inr s'
        \<longrightarrow> frame_queries ?rest = map frame_method (f # fs)"
      using resolve_calls_facts(1) [OF r1(2)] r2(5) Inr by (simp add: frame_queries_append)
    ultimately show ?thesis
      by blast
  qed
qed

lemma render_frames_globals:
  "thread_start (state_of (render_frames h fs s)) = thread_start s
   \<and> thread_name_field (state_of (render_frames h fs s)) = thread_name_field s"
proof (induction fs arbitrary: s)
  case Nil
  show ?case by (simp add: state_of_simps)
next
  case (Cons f fs)
  show ?case
  proof (cases "render_frame h f s")
    case (Inl e)
    with render_frame_globals [of h f s] show ?thesis by simp
  next
    case (Inr s1)
    with render_frame_globals [of h f s] Cons.IH [of s1] show ?thesis
      by (simp add: state_of_simps)
  qed
qed

text \<open>The header: one \<open>GetThreadInfo\<close> call; the text is written when the host gives a
  name; a null name is streamed, which is undefined.\<close>

lemma print_header_cases:
  "print_header h thread s =
     (if GetThreadInfo h thread = Some nullptr
      then Inl (NullStreamInsert, print ''========= '' (issue (Call_GetThreadInfo thread) s))
      else Inr (print (header_text h thread) (issue (Call_GetThreadInfo thread) s)))"
  by (auto simp: print_header_def header_text_def stream_cstr_def print_def Let_def
      split: option.splits)

text \<open>The whole capture, by what the host answers.\<close>

lemma printStackTrace_null_name:
  assumes "GetThreadInfo h thread = Some nullptr"
  shows "printStackTrace h thread s =
           Inl (NullStreamInsert, print ''========= '' (issue (Call_GetThreadInfo thread) s))"
  using assms by (simp add: printStackTrace_def print_header_cases)

lemma printStackTrace_query_fails:
  assumes "GetThreadInfo h thread \<noteq> Some nullptr"
    and "GetStackTrace_fails h thread 2 MAX_FRAMES"
  shows "printStackTrace h thread s =
           Inr (print ''GetStackTrace failed\<newline>''
                 (issue (Call_GetStackTrace thread 2 MAX_FRAMES)
                   (print (header_text h thread) (issue (Call_GetThreadInfo thread) s))))"
  using assms by (simp add: printStackTrace_def print_header_cases GetStackTrace_def)

lemma printStackTrace_query_succeeds:
  assumes "GetThreadInfo h thread \<noteq> Some nullptr"
    and "\<not> GetStackTrace_fails h thread 2 MAX_FRAMES"
  shows "printStackTrace h thread s =
           render_frames h (take MAX_FRAMES (drop 2 (stack h thread)))
             (issue (Call_GetStackTrace thread 2 MAX_FRAMES)
               (print (header_text h thread) (issue (Call_GetThreadInfo thread) s)))"
  using assms by (simp add: printStackTrace_def print_header_cases GetStackTrace_def)

lemma printStackTrace_effect:
  "\<exists>rest k. calls (state_of (printStackTrace h thread s))
              = calls s @ Call_GetThreadInfo thread
                  # (if GetThreadInfo h thread = Some nullptr then []
                     else Call_GetStackTrace thread 2 MAX_FRAMES # rest)
         \<and> list_all capture_call rest
         \<and> filter is_stack_request rest = []
         \<and> frame_queries rest
              = take k (map frame_method (take MAX_FRAMES (drop 2 (stack h thread))))
         \<and> (GetStackTrace_fails h thread 2 MAX_FRAMES \<longrightarrow> rest = [])
         \<and> (\<forall>s'. printStackTrace h thread s = Inr s'
                  \<and> \<not> GetStackTrace_fails h thread 2 MAX_FRAMES
               \<longrightarrow> frame_queries rest
                     = map frame_method (take MAX_FRAMES (drop 2 (stack h thread))))"
proof -
  let ?fs = "take MAX_FRAMES (drop 2 (stack h thread))"
  consider (null) "GetThreadInfo h thread = Some nullptr"
    | (fails) "GetThreadInfo h thread \<noteq> Some nullptr" "GetStackTrace_fails h thread 2 MAX_FRAMES"
    | (frames) "GetThreadInfo h thread \<noteq> Some nullptr" "\<not> GetStackTrace_fails h thread 2 MAX_FRAMES"
    by blast
  then show ?thesis
  proof cases
    case null
    have "calls (state_of (printStackTrace h thread s)) = calls s @ [Call_GetThreadInfo thread]"
      by (simp add: printStackTrace_null_name [OF null] state_of_simps print_simps issue_simps)
    moreover have "frame_queries [] = take 0 (map frame_method ?fs)"
      by simp
    moreover have "\<forall>s'. printStackTrace h thread s \<noteq> Inr s'"
      by (simp add: printStackTrace_null_name [OF null])
    ultimately show ?thesis
      using null by (intro exI [of _ "[]"] exI [of _ 0]) simp
  next
    case fails
    have "calls (state_of (printStackTrace h thread s))
        = calls s @ [Call_GetThreadInfo thread, Call_GetStackTrace thread 2 MAX_FRAMES]"
      by (simp add: printStackTrace_query_fails [OF fails] state_of_simps print_simps issue_simps)
    then show ?thesis
      using fails by (intro exI [of _ "[]"] exI [of _ 0]) simp
  next
    case frames
    let ?s2 = "issue (Call_GetStackTrace thread 2 MAX_FRAMES)
                 (print (header_text h thread) (issue (Call_GetThreadInfo thread) s))"
    have eq: "printStackTrace h thread s = render_frames h ?fs ?s2"
      by (rule printStackTrace_query_succeeds [OF frames])
    obtain rest k where rest: "calls (state_of (render_frames h ?fs ?s2)) = calls ?s2 @ rest"
        "list_all capture_call rest" "filter is_stack_request rest = []"
        "frame_queries rest = take k (map frame_method ?fs)"
        "\<forall>s'. render_frames h ?fs ?s2 = Inr s' \<longrightarrow> frame_queries rest = map frame_method ?fs"
      using render_frames_effect [of h ?fs ?s2] by blast
    have "calls (state_of (printStackTrace h thread s))
        = calls s @ Call_GetThreadInfo thread # Call_GetStackTrace thread 2 MAX_FRAMES # rest"
      using rest(1) by (simp add: eq print_simps issue_simps)
    with rest(2-5) frames eq show ?thesis
      by (intro exI [of _ rest] exI [of _ k]) simp
  qed
qed

lemma printStackTrace_globals:
  "thread_start (state_of (printStackTrace h thread s)) = thread_start s"
  "thread_name_field (state_of (printStackTrace h thread s)) = thread_name_field s"
proof -
  consider (null) "GetThreadInfo h thread = Some nullptr"
    | (fails) "GetThreadInfo h thread \<noteq> Some nullptr" "GetStackTrace_fails h thread 2 MAX_FRAMES"
    | (frames) "GetThreadInfo h thread \<noteq> Some nullptr" "\<not> GetStackTrace_fails h thread 2 MAX_FRAMES"
    by blast
  then have "thread_start (state_of (printStackTrace h thread s)) = thread_start s
      \<and> thread_name_field (state_of (printStackTrace h thread s)) = thread_name_field s"
  proof cases
    case null
    then show ?thesis
      by (simp add: printStackTrace_null_name state_of_simps print_simps issue_simps)
  next
    case fails
    then show ?thesis
      by (simp add: printStackTrace_query_fails state_of_simps print_simps issue_simps)
  next
    case frames
    then show ?thesis
      using render_frames_globals
      by (simp add: printStackTrace_query_succeeds print_simps issue_simps)
  qed
  then show "thread_start (state_of (printStackTrace h thread s)) = thread_start s"
    and "thread_name_field (state_of (printStackTrace h thread s)) = thread_name_field s"
    by simp_all
qed

lemma printStackTrace_capture_calls:
  "\<exists>cs. calls (state_of (printStackTrace h thread s)) = calls s @ Call_GetThreadInfo thread # cs
        \<and> list_all capture_call cs"
proof -
  obtain rest where rest: "calls (state_of (printStackTrace h thread s))
        = calls s @ Call_GetThreadInfo thread
            # (if GetThreadInfo h thread = Some nullptr then []
               else Call_GetStackTrace thread 2 MAX_FRAMES # rest)"
      "list_all capture_call rest"
    using printStackTrace_effect [of h thread s] by blast
  let ?cs = "if GetThreadInfo h thread = Some nullptr then []
             else Call_GetStackTrace thread 2 MAX_FRAMES # rest"
  have "list_all capture_call ?cs"
    using rest(2) by simp
  with rest(1) show ?thesis
    by blast
qed

text \<open>A frame all of whose queries succeed is rendered as one line, signature, \<open>#\<close>, name,
  and both buffers are then freed, the name first.\<close>

lemma render_frame_resolved:
  assumes "GetMethodDeclaringClass h (frame_method f) = Some cls"
    and "GetClassSignature h cls = Some p" and "p \<noteq> nullptr"
    and "GetMethodName h (frame_method f) = Some q" and "q \<noteq> nullptr"
  shows "render_frame h f s
           = Inr (s\<lparr>calls := calls s
                       @ [Call_GetMethodDeclaringClass (frame_method f), Call_GetClassSignature cls,
                          Call_GetMethodName (frame_method f), Call_Deallocate q, Call_Deallocate p],
                    cerr := cerr s @ c_str (mem h p) @ ''#'' @ c_str (mem h q) @ ''\<newline>''\<rparr>)"
  using assms
  by (simp add: render_frame_def getClassSignature_def getMethodName_def stream_cstr_def
      Holder_from_def get_def Holder_destroy_def deallocate_def valid_def issue_def print_def
      Let_def)

text \<open>An iteration of the loop reaches its end exactly when the frame has a line, and then
  that line is what it has written.\<close>

lemma render_frame_line:
  assumes "frame_line h f = Some l"
  shows "\<exists>s'. render_frame h f s = Inr s' \<and> cerr s' = cerr s @ l"
proof -
  from assms obtain cls p q where r:
      "GetMethodDeclaringClass h (frame_method f) = Some cls"
      "GetClassSignature h cls = Some p" "p \<noteq> nullptr"
      "GetMethodName h (frame_method f) = Some q" "q \<noteq> nullptr"
      "l = c_str (mem h p) @ ''#'' @ c_str (mem h q) @ ''\<newline>''"
    by (auto simp: frame_line_def split: option.splits if_splits)
  show ?thesis
    by (simp add: render_frame_resolved [OF r(1-5)] r(6))
qed

lemma render_frame_no_line:
  assumes "frame_line h f = None"
  shows "\<exists>e. render_frame h f s = Inl e"
  using assms
  by (auto simp: frame_line_def render_frame_def getClassSignature_def getMethodName_def
      stream_cstr_def Holder_from_def get_def Let_def split: option.splits if_splits)

lemma render_frames_lines:
  assumes "frame_lines h fs = Some ls"
  shows "\<exists>s'. render_frames h fs s = Inr s' \<and> cerr s' = cerr s @ ls"
  using assms
proof (induction fs arbitrary: s ls)
  case Nil
  then show ?case
    by simp
next
  case (Cons f fs)
  from Cons.prems obtain l ls' where l: "frame_line h f = Some l"
    and ls': "frame_lines h fs = Some ls'" and ls: "ls = l @ ls'"
    by (auto split: option.splits)
  obtain s1 where s1: "render_frame h f s = Inr s1" "cerr s1 = cerr s @ l"
    using render_frame_line [OF l] by blast
  obtain s' where s': "render_frames h fs s1 = Inr s'" "cerr s' = cerr s1 @ ls'"
    using Cons.IH [OF ls'] by blast
  from s1 s' ls show ?case
    by simp
qed

lemma render_frames_no_lines:
  assumes "frame_lines h fs = None"
  shows "\<exists>e. render_frames h fs s = Inl e"
  using assms
proof (induction fs arbitrary: s)
  case Nil
  then show ?case
    by simp
next
  case (Cons f fs)
  show ?case
  proof (cases "frame_line h f")
    case None
    from render_frame_no_line [OF None, of s] show ?thesis
      by auto
  next
    case (Some l)
    with Cons.prems have none: "frame_lines h fs = None"
      by (auto split: option.splits)
    obtain s1 where s1: "render_frame h f s = Inr s1"
      using render_frame_line [OF Some] by blast
    from Cons.IH [OF none, of s1] s1 show ?thesis
      by auto
  qed
qed

lemma frame_lines_take_Suc:
  assumes "frame_lines h fs = Some ls" and "fs \<noteq> []"
  shows "\<exists>l rest. frame_line h (hd fs) = Some l \<and> ls = l @ rest"
  using assms by (cases fs) (auto split: option.splits)

text \<open>
  C7, as the code has it. Every request a stack capture makes for the stack is for at most
  \<open>MAX_FRAMES = 10\<close> frames starting at depth 2, and a capture that returns has made
  exactly one. The frames it starts to render are, in order, frames of the thread's stack
  from the third on, at most ten of them. A capture that returns after a successful query
  has written the header (if the host gave a name) followed by the lines of exactly these
  frames, so the first line after the header is that of the third frame of the stack; and
  whenever the host answers every query the capture does return. When the host's stack
  query fails, no frame is rendered: the capture returns after the two queries, having
  written the header (if the host gave a name) and then the line \<open>GetStackTrace failed\<close>.
\<close>

theorem printStackTrace_request:
  "MAX_FRAMES = 10
   \<and> (filter is_stack_request (new_calls s (state_of (printStackTrace h thread s))) = []
        \<or> filter is_stack_request (new_calls s (state_of (printStackTrace h thread s)))
             = [Call_GetStackTrace thread 2 MAX_FRAMES])
   \<and> (\<forall>s'. printStackTrace h thread s = Inr s'
        \<longrightarrow> filter is_stack_request (new_calls s s') = [Call_GetStackTrace thread 2 MAX_FRAMES])
   \<and> (\<exists>k. frame_queries (new_calls s (state_of (printStackTrace h thread s)))
            = take k (map frame_method (take MAX_FRAMES (drop 2 (stack h thread)))))
   \<and> length (frame_queries (new_calls s (state_of (printStackTrace h thread s)))) \<le> MAX_FRAMES
   \<and> (frame_queries (new_calls s (state_of (printStackTrace h thread s))) \<noteq> []
        \<longrightarrow> hd (frame_queries (new_calls s (state_of (printStackTrace h thread s))))
              = frame_method (stack h thread ! 2))
   \<and> (\<forall>s'. printStackTrace h thread s = Inr s' \<and> \<not> GetStackTrace_fails h thread 2 MAX_FRAMES
        \<longrightarrow> frame_queries (new_calls s s')
              = map frame_method (take MAX_FRAMES (drop 2 (stack h thread)))
          \<and> (\<exists>ls. frame_lines h (take MAX_FRAMES (drop 2 (stack h thread))) = Some ls
                \<and> new_output s s' = header_text h thread @ ls))
   \<and> (\<forall>s'. printStackTrace h thread s = Inr s' \<and> \<not> GetStackTrace_fails h thread 2 MAX_FRAMES
             \<and> 2 < length (stack h thread)
        \<longrightarrow> (\<exists>l rest. frame_line h (stack h thread ! 2) = Some l
                \<and> new_output s s' = header_text h thread @ l @ rest))
   \<and> (\<forall>ls. GetThreadInfo h thread \<noteq> Some nullptr
             \<and> \<not> GetStackTrace_fails h thread 2 MAX_FRAMES
             \<and> frame_lines h (take MAX_FRAMES (drop 2 (stack h thread))) = Some ls
        \<longrightarrow> (\<exists>s'. printStackTrace h thread s = Inr s'
                \<and> new_output s s' = header_text h thread @ ls))
   \<and> (GetStackTrace_fails h thread 2 MAX_FRAMES
        \<longrightarrow> frame_queries (new_calls s (state_of (printStackTrace h thread s))) = [])
   \<and> (GetStackTrace_fails h thread 2 MAX_FRAMES \<and> GetThreadInfo h thread \<noteq> Some nullptr
        \<longrightarrow> printStackTrace h thread s
              = Inr (s\<lparr>calls := calls s
                          @ [Call_GetThreadInfo thread, Call_GetStackTrace thread 2 MAX_FRAMES],
                       cerr := cerr s @ header_text h thread @ ''GetStackTrace failed\<newline>''\<rparr>))"
proof -
  let ?cs = "new_calls s (state_of (printStackTrace h thread s))"
  let ?fs = "take MAX_FRAMES (drop 2 (stack h thread))"
  let ?s2 = "issue (Call_GetStackTrace thread 2 MAX_FRAMES)
               (print (header_text h thread) (issue (Call_GetThreadInfo thread) s))"
  obtain rest k where rest:
      "calls (state_of (printStackTrace h thread s))
         = calls s @ Call_GetThreadInfo thread
             # (if GetThreadInfo h thread = Some nullptr then []
                else Call_GetStackTrace thread 2 MAX_FRAMES # rest)"
      "list_all capture_call rest"
      "filter is_stack_request rest = []"
      "frame_queries rest = take k (map frame_method ?fs)"
      "GetStackTrace_fails h thread 2 MAX_FRAMES \<longrightarrow> rest = []"
      "\<forall>s'. printStackTrace h thread s = Inr s' \<and> \<not> GetStackTrace_fails h thread 2 MAX_FRAMES
         \<longrightarrow> frame_queries rest = map frame_method ?fs"
    using printStackTrace_effect [of h thread s] by blast
  have cs: "?cs = Call_GetThreadInfo thread
                    # (if GetThreadInfo h thread = Some nullptr then []
                       else Call_GetStackTrace thread 2 MAX_FRAMES # rest)"
    by (rule new_calls_append [OF rest(1)])
  have returns_named: "GetThreadInfo h thread \<noteq> Some nullptr"
    if "printStackTrace h thread s = Inr s'" for s'
    using that printStackTrace_null_name [of h thread s] by auto
  have c1: "MAX_FRAMES = 10"
    by (simp add: MAX_FRAMES_def)
  have c2: "filter is_stack_request ?cs = []
      \<or> filter is_stack_request ?cs = [Call_GetStackTrace thread 2 MAX_FRAMES]"
    using rest(3) by (simp add: cs)
  have c2b: "\<forall>s'. printStackTrace h thread s = Inr s'
      \<longrightarrow> filter is_stack_request (new_calls s s') = [Call_GetStackTrace thread 2 MAX_FRAMES]"
  proof (intro allI impI)
    fix s'
    assume a: "printStackTrace h thread s = Inr s'"
    then have "new_calls s s' = ?cs"
      by (simp add: state_of_simps)
    with returns_named [OF a] rest(3)
    show "filter is_stack_request (new_calls s s') = [Call_GetStackTrace thread 2 MAX_FRAMES]"
      by (simp add: cs)
  qed
  have fq: "frame_queries ?cs
      = (if GetThreadInfo h thread = Some nullptr then [] else take k (map frame_method ?fs))"
    using rest(4) by (simp add: cs)
  have c3: "\<exists>k. frame_queries ?cs = take k (map frame_method ?fs)"
  proof (cases "GetThreadInfo h thread = Some nullptr")
    case True
    then have "frame_queries ?cs = take 0 (map frame_method ?fs)"
      by (simp add: fq)
    then show ?thesis ..
  next
    case False
    then have "frame_queries ?cs = take k (map frame_method ?fs)"
      by (simp add: fq)
    then show ?thesis ..
  qed
  then obtain j where j: "frame_queries ?cs = take j (map frame_method ?fs)" ..
  have c4: "length (frame_queries ?cs) \<le> MAX_FRAMES"
    by (simp add: j)
  have c5: "frame_queries ?cs \<noteq> [] \<longrightarrow> hd (frame_queries ?cs) = frame_method (stack h thread ! 2)"
  proof
    assume ne: "frame_queries ?cs \<noteq> []"
    then have "0 < j" and "?fs \<noteq> []"
      by (auto simp: j)
    then have len: "2 < length (stack h thread)" and "0 < MAX_FRAMES"
      by auto
    have "hd (frame_queries ?cs) = frame_method (hd (drop 2 (stack h thread)))"
      using \<open>0 < j\<close> \<open>?fs \<noteq> []\<close> \<open>0 < MAX_FRAMES\<close> by (simp add: j hd_map)
    also have "hd (drop 2 (stack h thread)) = stack h thread ! 2"
      using len by (rule hd_drop_conv_nth)
    finally show "hd (frame_queries ?cs) = frame_method (stack h thread ! 2)" .
  qed
  have written: "\<exists>ls. frame_lines h ?fs = Some ls \<and> new_output s s' = header_text h thread @ ls"
    if a: "printStackTrace h thread s = Inr s'"
      and nf: "\<not> GetStackTrace_fails h thread 2 MAX_FRAMES" for s'
  proof -
    have eq: "printStackTrace h thread s = render_frames h ?fs ?s2"
      by (rule printStackTrace_query_succeeds [OF returns_named [OF a] nf])
    have "frame_lines h ?fs \<noteq> None"
      using render_frames_no_lines [of h ?fs ?s2] a eq by auto
    then obtain ls where ls: "frame_lines h ?fs = Some ls"
      by auto
    obtain s'' where s'': "render_frames h ?fs ?s2 = Inr s''" "cerr s'' = cerr ?s2 @ ls"
      using render_frames_lines [OF ls] by blast
    with a eq have "cerr s' = cerr s @ header_text h thread @ ls"
      by (simp add: issue_simps print_simps)
    then have "new_output s s' = header_text h thread @ ls"
      by (rule new_output_append)
    with ls show ?thesis
      by blast
  qed
  have c6: "\<forall>s'. printStackTrace h thread s = Inr s' \<and> \<not> GetStackTrace_fails h thread 2 MAX_FRAMES
      \<longrightarrow> frame_queries (new_calls s s') = map frame_method ?fs
        \<and> (\<exists>ls. frame_lines h ?fs = Some ls \<and> new_output s s' = header_text h thread @ ls)"
  proof (intro allI impI)
    fix s'
    assume a: "printStackTrace h thread s = Inr s' \<and> \<not> GetStackTrace_fails h thread 2 MAX_FRAMES"
    then have nn: "GetThreadInfo h thread \<noteq> Some nullptr"
      using returns_named by blast
    from a rest(6) have "frame_queries rest = map frame_method ?fs"
      by blast
    moreover from a have "new_calls s s' = ?cs"
      by (simp add: state_of_simps)
    ultimately have "frame_queries (new_calls s s') = map frame_method ?fs"
      using nn by (simp add: cs)
    moreover from a have "\<exists>ls. frame_lines h ?fs = Some ls
        \<and> new_output s s' = header_text h thread @ ls"
      using written by blast
    ultimately show "frame_queries (new_calls s s') = map frame_method ?fs
        \<and> (\<exists>ls. frame_lines h ?fs = Some ls \<and> new_output s s' = header_text h thread @ ls)"
      by blast
  qed
  have c6b: "\<forall>s'. printStackTrace h thread s = Inr s' \<and> \<not> GetStackTrace_fails h thread 2 MAX_FRAMES
        \<and> 2 < length (stack h thread)
      \<longrightarrow> (\<exists>l rest. frame_line h (stack h thread ! 2) = Some l
            \<and> new_output s s' = header_text h thread @ l @ rest)"
  proof (intro allI impI)
    fix s'
    assume a: "printStackTrace h thread s = Inr s' \<and> \<not> GetStackTrace_fails h thread 2 MAX_FRAMES
        \<and> 2 < length (stack h thread)"
    then obtain ls where ls: "frame_lines h ?fs = Some ls"
        "new_output s s' = header_text h thread @ ls"
      using written by blast
    from a have ne: "?fs \<noteq> []"
      by (simp add: MAX_FRAMES_def)
    from a have "hd ?fs = stack h thread ! 2"
      by (simp add: MAX_FRAMES_def hd_drop_conv_nth)
    with frame_lines_take_Suc [OF ls(1) ne] ls(2)
    show "\<exists>l rest. frame_line h (stack h thread ! 2) = Some l
        \<and> new_output s s' = header_text h thread @ l @ rest"
      by auto
  qed
  have c6c: "\<forall>ls. GetThreadInfo h thread \<noteq> Some nullptr
        \<and> \<not> GetStackTrace_fails h thread 2 MAX_FRAMES
        \<and> frame_lines h ?fs = Some ls
      \<longrightarrow> (\<exists>s'. printStackTrace h thread s = Inr s'
            \<and> new_output s s' = header_text h thread @ ls)"
  proof (intro allI impI)
    fix ls
    assume a: "GetThreadInfo h thread \<noteq> Some nullptr
        \<and> \<not> GetStackTrace_fails h thread 2 MAX_FRAMES
        \<and> frame_lines h ?fs = Some ls"
    then have eq: "printStackTrace h thread s = render_frames h ?fs ?s2"
      by (simp add: printStackTrace_query_succeeds)
    from a obtain s' where s': "render_frames h ?fs ?s2 = Inr s'" "cerr s' = cerr ?s2 @ ls"
      using render_frames_lines [of h ?fs ls ?s2] by blast
    then have "cerr s' = cerr s @ header_text h thread @ ls"
      by (simp add: issue_simps print_simps)
    then have "new_output s s' = header_text h thread @ ls"
      by (rule new_output_append)
    with eq s'(1)
    show "\<exists>s'. printStackTrace h thread s = Inr s'
        \<and> new_output s s' = header_text h thread @ ls"
      by simp
  qed
  have c7: "GetStackTrace_fails h thread 2 MAX_FRAMES \<longrightarrow> frame_queries ?cs = []"
    using rest(5) by (auto simp: cs)
  have c8: "GetStackTrace_fails h thread 2 MAX_FRAMES \<and> GetThreadInfo h thread \<noteq> Some nullptr
      \<longrightarrow> printStackTrace h thread s
            = Inr (s\<lparr>calls := calls s
                        @ [Call_GetThreadInfo thread, Call_GetStackTrace thread 2 MAX_FRAMES],
                     cerr := cerr s @ header_text h thread @ ''GetStackTrace failed\<newline>''\<rparr>)"
  proof
    assume a: "GetStackTrace_fails h thread 2 MAX_FRAMES \<and> GetThreadInfo h thread \<noteq> Some nullptr"
    then have "printStackTrace h thread s =
        Inr (print ''GetStackTrace failed\<newline>''
              (issue (Call_GetStackTrace thread 2 MAX_FRAMES)
                (print (header_text h thread) (issue (Call_GetThreadInfo thread) s))))"
      by (simp add: printStackTrace_query_fails)
    then show "printStackTrace h thread s
        = Inr (s\<lparr>calls := calls s
                    @ [Call_GetThreadInfo thread, Call_GetStackTrace thread 2 MAX_FRAMES],
                 cerr := cerr s @ header_text h thread @ ''GetStackTrace failed\<newline>''\<rparr>)"
      by (simp add: print_def issue_def)
  qed
  from c1 c2 c2b c3 c4 c5 c6 c6b c6c c7 c8 show ?thesis
    by (intro conjI)
qed

lemma capture_host_facts:
  "GetThreadInfo capture_host 3 \<noteq> Some nullptr"
  "\<not> GetStackTrace_fails capture_host 3 2 MAX_FRAMES"
  "header_text capture_host 3 = ''========= main ==============\<newline>''"
  "frame_lines capture_host (take MAX_FRAMES (drop 2 (stack capture_host 3)))
     = Some ''Ljava/lang/Object;#create\<newline>Ljava/lang/Object;#main\<newline>''"
  "map frame_method (take MAX_FRAMES (drop 2 (stack capture_host 3))) = [13, 14]"
  "frame_line capture_host (stack capture_host 3 ! 2) = Some ''Ljava/lang/Object;#create\<newline>''"
  by (simp_all add: capture_host_def demo_host_def demo_stack_def demo_mem_def header_text_def
      frame_line_def c_str_def NUL_def nullptr_def MAX_FRAMES_def)

lemma no_stack_host_facts:
  "GetStackTrace_fails no_stack_host 3 2 MAX_FRAMES"
  "GetThreadInfo no_stack_host 3 \<noteq> Some nullptr"
  "header_text no_stack_host 3 = ''========= main ==============\<newline>''"
  by (simp_all add: no_stack_host_def demo_host_def demo_mem_def header_text_def c_str_def
      NUL_def nullptr_def)

theorem printStackTrace_request_witness:
  "(GetStackTrace_fails no_stack_host 3 2 MAX_FRAMES
      \<and> GetThreadInfo no_stack_host 3 \<noteq> Some nullptr)
   \<and> printStackTrace no_stack_host 3 init
       = Inr (init\<lparr>calls := [Call_GetThreadInfo 3, Call_GetStackTrace 3 2 10],
                   cerr := ''========= main ==============\<newline>GetStackTrace failed\<newline>''\<rparr>)
   \<and> (GetThreadInfo capture_host 3 \<noteq> Some nullptr
      \<and> \<not> GetStackTrace_fails capture_host 3 2 MAX_FRAMES
      \<and> frame_lines capture_host (take MAX_FRAMES (drop 2 (stack capture_host 3)))
          = Some ''Ljava/lang/Object;#create\<newline>Ljava/lang/Object;#main\<newline>'')
   \<and> (\<exists>s'. printStackTrace capture_host 3 init = Inr s'
         \<and> new_output init s'
             = ''========= main ==============\<newline>Ljava/lang/Object;#create\<newline>Ljava/lang/Object;#main\<newline>''
         \<and> frame_queries (new_calls init s') = [13, 14]
         \<and> filter is_stack_request (new_calls init s') = [Call_GetStackTrace 3 2 10])"
proof -
  have a: "GetStackTrace_fails no_stack_host 3 2 MAX_FRAMES
      \<and> GetThreadInfo no_stack_host 3 \<noteq> Some nullptr"
    by (simp add: no_stack_host_facts)
  have b: "printStackTrace no_stack_host 3 init
      = Inr (init\<lparr>calls := [Call_GetThreadInfo 3, Call_GetStackTrace 3 2 10],
                  cerr := ''========= main ==============\<newline>GetStackTrace failed\<newline>''\<rparr>)"
    using printStackTrace_request [of init no_stack_host 3] a
    by (simp add: no_stack_host_facts(3) init_def)
  have c: "GetThreadInfo capture_host 3 \<noteq> Some nullptr
      \<and> \<not> GetStackTrace_fails capture_host 3 2 MAX_FRAMES
      \<and> frame_lines capture_host (take MAX_FRAMES (drop 2 (stack capture_host 3)))
          = Some ''Ljava/lang/Object;#create\<newline>Ljava/lang/Object;#main\<newline>''"
    by (simp add: capture_host_facts)
  from printStackTrace_request [of init capture_host 3] c
  obtain s' where s': "printStackTrace capture_host 3 init = Inr s'"
      "new_output init s' = header_text capture_host 3
          @ ''Ljava/lang/Object;#create\<newline>Ljava/lang/Object;#main\<newline>''"
    by blast
  from printStackTrace_request [of init capture_host 3] s'(1) c
  have q: "frame_queries (new_calls init s')
        = map frame_method (take MAX_FRAMES (drop 2 (stack capture_host 3)))"
    and r: "filter is_stack_request (new_calls init s') = [Call_GetStackTrace 3 2 MAX_FRAMES]"
    by blast+
  have d: "\<exists>s'. printStackTrace capture_host 3 init = Inr s'
      \<and> new_output init s'
          = ''========= main ==============\<newline>Ljava/lang/Object;#create\<newline>Ljava/lang/Object;#main\<newline>''
      \<and> frame_queries (new_calls init s') = [13, 14]
      \<and> filter is_stack_request (new_calls init s') = [Call_GetStackTrace 3 2 10]"
    using s' q r capture_host_facts(5) by (simp add: capture_host_facts(3) MAX_FRAMES_def)
  from a b c d show ?thesis
    by blast
qed

text \<open>
  C7 as the specification states it fails in its last part: after a failed stack query the
  header is not the only output, the line \<open>GetStackTrace failed\<close> follows it on the same
  stream.
\<close>

theorem failed_query_output_counterexample:
  "GetStackTrace no_stack_host 3 2 MAX_FRAMES = None
   \<and> header_text no_stack_host 3 = ''========= main ==============\<newline>''
   \<and> new_output init (state_of (printStackTrace no_stack_host 3 init))
       = ''========= main ==============\<newline>GetStackTrace failed\<newline>''
   \<and> new_output init (state_of (printStackTrace no_stack_host 3 init))
       \<noteq> header_text no_stack_host 3"
proof -
  have "printStackTrace no_stack_host 3 init
      = Inr (print ''GetStackTrace failed\<newline>''
              (issue (Call_GetStackTrace 3 2 MAX_FRAMES)
                (print (header_text no_stack_host 3) (issue (Call_GetThreadInfo 3) init))))"
    by (rule printStackTrace_query_fails [OF no_stack_host_facts(2) no_stack_host_facts(1)])
  then have "new_output init (state_of (printStackTrace no_stack_host 3 init))
      = ''========= main ==============\<newline>GetStackTrace failed\<newline>''"
    by (simp add: state_of_simps new_output_def print_def issue_def init_def
        no_stack_host_facts(3))
  moreover have "GetStackTrace no_stack_host 3 2 MAX_FRAMES = None"
    by (simp add: GetStackTrace_def no_stack_host_facts(1))
  ultimately show ?thesis
    by (simp add: no_stack_host_facts(3))
qed

subsection \<open>The field-modification handler, continued\<close>

lemma strcmp_refl: "strcmp a a = 0"
  by (induction a) simp_all

lemma OnFieldModification_match:
  assumes "field = thread_name_field s" and "GetStringUTFChars h new_value = p"
    and "p \<noteq> nullptr" and "c_str (mem h p) = THREAD_TO_CATCH"
  shows "OnFieldModification h thread field new_value s =
           printStackTrace h thread
             (issue (Call_ReleaseStringUTFChars new_value p)
               (print (''Thread '' @ c_str (mem h p) @ '' is about to get started\<newline>'')
                 (issue (Call_GetStringUTFChars new_value) s)))"
  using assms by (simp add: OnFieldModification_def strcmp_refl Let_def)

lemma OnFieldModification_mismatch:
  assumes "field = thread_name_field s" and "GetStringUTFChars h new_value = p"
    and "p \<noteq> nullptr" and "c_str (mem h p) \<noteq> THREAD_TO_CATCH"
  shows "OnFieldModification h thread field new_value s =
           Inr (issue (Call_ReleaseStringUTFChars new_value p)
                 (issue (Call_GetStringUTFChars new_value) s))"
  using assms by (simp add: OnFieldModification_def strcmp_target Let_def)

lemma OnFieldModification_null_chars:
  assumes "field = thread_name_field s" and "GetStringUTFChars h new_value = nullptr"
  shows "OnFieldModification h thread field new_value s =
           Inl (NullStrcmp, issue (Call_GetStringUTFChars new_value) s)"
  using assms by (simp add: OnFieldModification_def Let_def)

lemma OnFieldModification_other_field:
  "field \<noteq> thread_name_field s \<Longrightarrow> OnFieldModification h thread field new_value s = Inr s"
  by (simp add: OnFieldModification_def)

text \<open>
  C9. Whenever the handler decodes the new value (the field is the stored one and the host
  hands out the characters), the calls it makes, whether or not it reaches its end, start
  with the decoding and the release of those characters, and no other release or decoding
  follows: the string is released exactly once, before any stack capture, on the mismatch
  path (where nothing follows) and on the match path alike.
\<close>

theorem OnFieldModification_releases_once:
  assumes "field = thread_name_field s" and "GetStringUTFChars h new_value = p"
    and "p \<noteq> nullptr"
  shows "\<exists>rest. new_calls s (state_of (OnFieldModification h thread field new_value s))
                 = Call_GetStringUTFChars new_value
                     # Call_ReleaseStringUTFChars new_value p # rest
           \<and> filter is_release rest = []
           \<and> filter is_decode rest = []
           \<and> (rest = []) = (c_str (mem h p) \<noteq> THREAD_TO_CATCH)"
proof (cases "c_str (mem h p) = THREAD_TO_CATCH")
  case True
  let ?s3 = "issue (Call_ReleaseStringUTFChars new_value p)
               (print (''Thread '' @ c_str (mem h p) @ '' is about to get started\<newline>'')
                 (issue (Call_GetStringUTFChars new_value) s))"
  have eq: "OnFieldModification h thread field new_value s = printStackTrace h thread ?s3"
    by (rule OnFieldModification_match [OF assms True])
  obtain cs where cs: "calls (state_of (printStackTrace h thread ?s3))
        = calls ?s3 @ Call_GetThreadInfo thread # cs" "list_all capture_call cs"
    using printStackTrace_capture_calls [of h thread ?s3] by blast
  let ?rest = "Call_GetThreadInfo thread # cs"
  have "calls (state_of (OnFieldModification h thread field new_value s))
      = calls s @ Call_GetStringUTFChars new_value
          # Call_ReleaseStringUTFChars new_value p # ?rest"
    using cs(1) by (simp add: eq issue_simps print_simps)
  then have "new_calls s (state_of (OnFieldModification h thread field new_value s))
      = Call_GetStringUTFChars new_value # Call_ReleaseStringUTFChars new_value p # ?rest"
    by (rule new_calls_append)
  moreover have "filter is_release ?rest = []" and "filter is_decode ?rest = []"
    using capture_calls_facts(2,3) [OF cs(2)] by simp_all
  moreover have "(?rest = []) = (c_str (mem h p) \<noteq> THREAD_TO_CATCH)"
    using True by simp
  ultimately show ?thesis
    by blast
next
  case False
  have "calls (state_of (OnFieldModification h thread field new_value s))
      = calls s @ Call_GetStringUTFChars new_value
          # Call_ReleaseStringUTFChars new_value p # []"
    by (simp add: OnFieldModification_mismatch [OF assms False] state_of_simps issue_simps)
  then have "new_calls s (state_of (OnFieldModification h thread field new_value s))
      = Call_GetStringUTFChars new_value # Call_ReleaseStringUTFChars new_value p # []"
    by (rule new_calls_append)
  with False show ?thesis
    by simp
qed

theorem OnFieldModification_releases_once_witness:
  "(34::nat) = thread_name_field (init\<lparr>thread_name_field := 34\<rparr>)
   \<and> GetStringUTFChars demo_host 7 = 102 \<and> (102::nat) \<noteq> nullptr
   \<and> c_str (mem demo_host 102) = THREAD_TO_CATCH
   \<and> (\<exists>rest. new_calls (init\<lparr>thread_name_field := 34\<rparr>)
                (state_of (OnFieldModification demo_host 3 34 7 (init\<lparr>thread_name_field := 34\<rparr>)))
              = Call_GetStringUTFChars 7 # Call_ReleaseStringUTFChars 7 102 # rest
          \<and> filter is_release rest = [] \<and> rest \<noteq> [])"
proof -
  have a: "(34::nat) = thread_name_field (init\<lparr>thread_name_field := 34\<rparr>)"
    by simp
  have b: "GetStringUTFChars demo_host 7 = 102"
    by (simp add: demo_host_def)
  have c: "(102::nat) \<noteq> nullptr"
    by (simp add: nullptr_def)
  have d: "c_str (mem demo_host 102) = THREAD_TO_CATCH"
    by (simp add: demo_host_def demo_mem_def c_str_def NUL_def THREAD_TO_CATCH_def)
  from OnFieldModification_releases_once [OF a b c, of 3] a b c d show ?thesis
    by auto
qed

text \<open>The handler makes no watch request and does not write the globals.\<close>

lemma OnFieldModification_effect:
  "\<exists>cs. calls (state_of (OnFieldModification h thread field new_value s)) = calls s @ cs
        \<and> filter is_watch cs = []"
proof -
  let ?p = "GetStringUTFChars h new_value"
  consider (other) "field \<noteq> thread_name_field s"
    | (null) "field = thread_name_field s" "?p = nullptr"
    | (decoded) "field = thread_name_field s" "?p \<noteq> nullptr"
    by blast
  then show ?thesis
  proof cases
    case other
    then have "calls (state_of (OnFieldModification h thread field new_value s)) = calls s @ []"
      by (simp add: OnFieldModification_other_field state_of_simps)
    then show ?thesis
      by fastforce
  next
    case null
    then have "calls (state_of (OnFieldModification h thread field new_value s))
        = calls s @ [Call_GetStringUTFChars new_value]"
      by (simp add: OnFieldModification_null_chars state_of_simps issue_simps)
    moreover have "filter is_watch [Call_GetStringUTFChars new_value] = []"
      by simp
    ultimately show ?thesis
      by blast
  next
    case decoded
    obtain rest where rest:
        "new_calls s (state_of (OnFieldModification h thread field new_value s))
           = Call_GetStringUTFChars new_value # Call_ReleaseStringUTFChars new_value ?p # rest"
        "rest = [] \<or> (\<exists>cs. rest = Call_GetThreadInfo thread # cs \<and> list_all capture_call cs)"
    proof (cases "c_str (mem h ?p) = THREAD_TO_CATCH")
      case True
      let ?s3 = "issue (Call_ReleaseStringUTFChars new_value ?p)
                   (print (''Thread '' @ c_str (mem h ?p) @ '' is about to get started\<newline>'')
                     (issue (Call_GetStringUTFChars new_value) s))"
      have eq: "OnFieldModification h thread field new_value s = printStackTrace h thread ?s3"
        by (rule OnFieldModification_match [OF decoded(1) refl decoded(2) True])
      obtain cs where cs: "calls (state_of (printStackTrace h thread ?s3))
            = calls ?s3 @ Call_GetThreadInfo thread # cs" "list_all capture_call cs"
        using printStackTrace_capture_calls [of h thread ?s3] by blast
      have "calls (state_of (OnFieldModification h thread field new_value s))
          = calls s @ Call_GetStringUTFChars new_value
              # Call_ReleaseStringUTFChars new_value ?p # Call_GetThreadInfo thread # cs"
        using cs(1) by (simp add: eq issue_simps print_simps)
      then have "new_calls s (state_of (OnFieldModification h thread field new_value s))
          = Call_GetStringUTFChars new_value
              # Call_ReleaseStringUTFChars new_value ?p # Call_GetThreadInfo thread # cs"
        by (rule new_calls_append)
      with cs(2) that show ?thesis
        by blast
    next
      case False
      have "calls (state_of (OnFieldModification h thread field new_value s))
          = calls s @ Call_GetStringUTFChars new_value
              # Call_ReleaseStringUTFChars new_value ?p # []"
        by (simp add: OnFieldModification_mismatch [OF decoded(1) refl decoded(2) False]
            state_of_simps issue_simps)
      then have "new_calls s (state_of (OnFieldModification h thread field new_value s))
          = Call_GetStringUTFChars new_value # Call_ReleaseStringUTFChars new_value ?p # []"
        by (rule new_calls_append)
      with that show ?thesis
        by blast
    qed
    have mono: "calls (state_of (OnFieldModification h thread field new_value s))
        = calls s @ new_calls s (state_of (OnFieldModification h thread field new_value s))"
    proof (cases "c_str (mem h ?p) = THREAD_TO_CATCH")
      case True
      let ?s3 = "issue (Call_ReleaseStringUTFChars new_value ?p)
                   (print (''Thread '' @ c_str (mem h ?p) @ '' is about to get started\<newline>'')
                     (issue (Call_GetStringUTFChars new_value) s))"
      obtain cs where cs: "calls (state_of (printStackTrace h thread ?s3))
            = calls ?s3 @ Call_GetThreadInfo thread # cs"
        using printStackTrace_capture_calls [of h thread ?s3] by blast
      show ?thesis
        using cs
        by (simp add: OnFieldModification_match [OF decoded(1) refl decoded(2) True]
            new_calls_def issue_simps print_simps)
    next
      case False
      show ?thesis
        by (simp add: OnFieldModification_mismatch [OF decoded(1) refl decoded(2) False]
            state_of_simps new_calls_def issue_simps)
    qed
    have "filter is_watch rest = []"
      using rest(2) capture_calls_facts(1) by auto
    then have "filter is_watch
        (new_calls s (state_of (OnFieldModification h thread field new_value s))) = []"
      by (simp add: rest(1))
    with mono show ?thesis
      by blast
  qed
qed

lemma OnFieldModification_globals:
  "thread_start (state_of (OnFieldModification h thread field new_value s)) = thread_start s"
  "thread_name_field (state_of (OnFieldModification h thread field new_value s))
     = thread_name_field s"
  by (simp_all add: OnFieldModification_def Let_def state_of_simps issue_simps print_simps
      printStackTrace_globals)

subsection \<open>Sequences of events\<close>

lemma ClassLoad_Inr_resolved:
  assumes "ClassLoad h klass s = Inr s'"
  shows "\<exists>p. GetClassSignature h klass = Some p \<and> p \<noteq> nullptr
            \<and> resolved_signature h klass = Some (c_str (mem h p))"
proof (cases "GetClassSignature h klass")
  case None
  with assms show ?thesis
    by (simp add: ClassLoad_def getClassSignature_None Holder_from_def get_def)
next
  case (Some p)
  with assms have "p \<noteq> nullptr"
    by (auto simp: ClassLoad_def getClassSignature_Some Holder_from_def get_def)
  with Some show ?thesis
    by (simp add: resolved_signature_def)
qed

text \<open>One event: the watch requests grow by the request the event leads to, and an event
  that leads to none leaves the globals alone.\<close>

lemma deliver_watch_requests:
  assumes "deliver h e s = Inr s'"
  shows "watch_requests s' = watch_requests s @ arming_request (h, e)"
proof (cases e)
  case (ClassLoadEv klass)
  with assms have cl: "ClassLoad h klass s = Inr s'"
    by simp
  then obtain p where p: "GetClassSignature h klass = Some p" "p \<noteq> nullptr"
      "resolved_signature h klass = Some (c_str (mem h p))"
    using ClassLoad_Inr_resolved by blast
  show ?thesis
  proof (cases "c_str (mem h p) = Thread_signature")
    case True
    from ClassLoad_Thread [OF p(1) p(2) True, of s] cl
    have "watch_requests s' = watch_requests s
        @ [Call_SetFieldModificationWatch klass (GetFieldID h klass ''name'' ''Ljava/lang/String;'')]"
      by (auto simp: watch_requests_def)
    with True p(3) ClassLoadEv show ?thesis
      by simp
  next
    case False
    from ClassLoad_other [OF p(1) p(2) False, of s] cl
    have "watch_requests s' = watch_requests s"
      by (auto simp: watch_requests_def issue_simps)
    with False p(3) ClassLoadEv show ?thesis
      by simp
  qed
next
  case (FieldModificationEv thread field new_value)
  with assms have fm: "OnFieldModification h thread field new_value s = Inr s'"
    by simp
  obtain cs where cs: "calls (state_of (OnFieldModification h thread field new_value s))
        = calls s @ cs" "filter is_watch cs = []"
    using OnFieldModification_effect by blast
  from cs fm have "watch_requests s' = watch_requests s"
    by (simp add: watch_requests_def state_of_simps)
  with FieldModificationEv show ?thesis
    by simp
qed

lemma deliver_globals:
  assumes "deliver h e s = Inr s'" and "arming_request (h, e) = []"
  shows "thread_start s' = thread_start s \<and> thread_name_field s' = thread_name_field s"
proof (cases e)
  case (ClassLoadEv klass)
  with assms have cl: "ClassLoad h klass s = Inr s'"
    by simp
  then obtain p where p: "GetClassSignature h klass = Some p" "p \<noteq> nullptr"
      "resolved_signature h klass = Some (c_str (mem h p))"
    using ClassLoad_Inr_resolved by blast
  with assms(2) ClassLoadEv have "c_str (mem h p) \<noteq> Thread_signature"
    by (auto split: if_splits)
  from ClassLoad_other [OF p(1) p(2) this, of s] cl show ?thesis
    by (auto simp: issue_simps)
next
  case (FieldModificationEv thread field new_value)
  with assms have fm: "OnFieldModification h thread field new_value s = Inr s'"
    by simp
  from OnFieldModification_globals [of h thread field new_value s] fm show ?thesis
    by (simp add: state_of_simps)
qed

lemma deliver_arming_globals:
  assumes "deliver h (ClassLoadEv klass) s = Inr s'"
    and "resolved_signature h klass = Some Thread_signature"
  shows "thread_start s' = GetMethodID h klass ''start'' ''()V''
       \<and> thread_name_field s' = GetFieldID h klass ''name'' ''Ljava/lang/String;''"
proof -
  obtain p where p: "GetClassSignature h klass = Some p" "p \<noteq> nullptr"
      "c_str (mem h p) = Thread_signature"
    using resolved_signature_SomeD [OF assms(2)] by auto
  from ClassLoad_Thread [OF p, of s] assms(1) show ?thesis
    by auto
qed

lemma arming_requests_simps:
  "arming_requests [] = []"
  "arming_requests (x # evs) = arming_request x @ arming_requests evs"
  "arming_requests (evs @ evs') = arming_requests evs @ arming_requests evs'"
  by (simp_all add: arming_requests_def)

lemma run_append:
  "run (evs @ evs') s = (case run evs s of Inl err \<Rightarrow> Inl err | Inr s1 \<Rightarrow> run evs' s1)"
proof (induction evs arbitrary: s)
  case Nil
  show ?case by simp
next
  case (Cons x evs)
  obtain h e where x: "x = (h, e)"
    by (cases x)
  show ?case
    using Cons.IH by (cases "deliver h e s") (simp_all add: x)
qed

lemma run_watch_requests_aux:
  "run evs s = Inr s' \<Longrightarrow> watch_requests s' = watch_requests s @ arming_requests evs"
proof (induction evs arbitrary: s)
  case Nil
  then show ?case
    by (simp add: arming_requests_simps)
next
  case (Cons x evs)
  obtain h e where x: "x = (h, e)"
    by (cases x)
  from Cons.prems obtain s1 where s1: "deliver h e s = Inr s1" "run evs s1 = Inr s'"
    by (cases "deliver h e s") (simp_all add: x)
  from deliver_watch_requests [OF s1(1)] Cons.IH [OF s1(2)] show ?case
    by (simp add: x arming_requests_simps)
qed

lemma run_globals_aux:
  "run evs s = Inr s' \<Longrightarrow> arming_requests evs = [] \<Longrightarrow>
   thread_start s' = thread_start s \<and> thread_name_field s' = thread_name_field s"
proof (induction evs arbitrary: s)
  case Nil
  then show ?case
    by simp
next
  case (Cons x evs)
  obtain h e where x: "x = (h, e)"
    by (cases x)
  from Cons.prems(1) obtain s1 where s1: "deliver h e s = Inr s1" "run evs s1 = Inr s'"
    by (cases "deliver h e s") (simp_all add: x)
  from Cons.prems(2) have no: "arming_request (h, e) = []" "arming_requests evs = []"
    by (simp_all add: x arming_requests_simps)
  from deliver_globals [OF s1(1) no(1)] Cons.IH [OF s1(2) no(2)] show ?case
    by simp
qed

text \<open>
  C6. A field-modification event that arrives before any arming (the events handled so far,
  from the start of the process, led to no watch request) and names a field, or one whose
  field is not the stored one: the handler returns with the state as it was, so the value is
  not decoded, nothing is written and no stack is captured.
\<close>

theorem OnFieldModification_filter:
  assumes "(run evs init = Inr s \<and> arming_requests evs = [] \<and> field \<noteq> nullptr)
           \<or> field \<noteq> thread_name_field s"
  shows "OnFieldModification h thread field new_value s = Inr s
       \<and> filter is_decode (new_calls s (state_of (OnFieldModification h thread field new_value s))) = []
       \<and> filter capture_call (new_calls s (state_of (OnFieldModification h thread field new_value s))) = []
       \<and> new_output s (state_of (OnFieldModification h thread field new_value s)) = []"
proof -
  have "field \<noteq> thread_name_field s"
  proof (cases "field \<noteq> thread_name_field s")
    case True
    then show ?thesis .
  next
    case False
    with assms have "run evs init = Inr s" "arming_requests evs = []" "field \<noteq> nullptr"
      by simp_all
    from run_globals_aux [OF this(1,2)] this(3) show ?thesis
      by (simp add: init_def nullptr_def)
  qed
  then have "OnFieldModification h thread field new_value s = Inr s"
    by (rule OnFieldModification_other_field)
  then show ?thesis
    by (simp add: state_of_simps)
qed

theorem OnFieldModification_filter_witness:
  "run [(demo_host, ClassLoadEv 2), (demo_host, FieldModificationEv 3 34 7)] init
     = Inr (init\<lparr>calls := [Call_GetClassSignature 2, Call_Deallocate 101]\<rparr>)
   \<and> arming_requests [(demo_host, ClassLoadEv 2), (demo_host, FieldModificationEv 3 34 7)] = []
   \<and> (34::nat) \<noteq> nullptr
   \<and> OnFieldModification demo_host 3 34 7 (init\<lparr>calls := [Call_GetClassSignature 2, Call_Deallocate 101]\<rparr>)
       = Inr (init\<lparr>calls := [Call_GetClassSignature 2, Call_Deallocate 101]\<rparr>)"
proof -
  let ?evs = "[(demo_host, ClassLoadEv 2), (demo_host, FieldModificationEv 3 34 7)]"
  let ?s = "init\<lparr>calls := [Call_GetClassSignature 2, Call_Deallocate 101]\<rparr>"
  have cl: "ClassLoad demo_host 2 init = Inr ?s"
    by (simp add: ClassLoad_def getClassSignature_def demo_host_def demo_mem_def c_str_def
        NUL_def Thread_signature_def Holder_from_def get_def nullptr_def Holder_destroy_def
        deallocate_def valid_def issue_def init_def)
  have fm: "OnFieldModification demo_host 3 34 7 ?s = Inr ?s"
    by (simp add: OnFieldModification_def init_def)
  have a: "run ?evs init = Inr ?s"
    by (simp add: cl fm)
  have b: "arming_requests ?evs = []"
    by (simp add: arming_requests_def resolved_signature_def demo_host_def demo_mem_def
        c_str_def NUL_def Thread_signature_def nullptr_def)
  have c: "(34::nat) \<noteq> nullptr"
    by (simp add: nullptr_def)
  from a b c have "(run ?evs init = Inr ?s \<and> arming_requests ?evs = [] \<and> (34::nat) \<noteq> nullptr)
      \<or> 34 \<noteq> thread_name_field ?s"
    by blast
  from OnFieldModification_filter [OF this, of demo_host 3 7] a b c show ?thesis
    by simp
qed

text \<open>The hypothesis that the event names a field is needed before arming: the stored
  identity is then still null, and an event with a null field identity (which no host
  delivers) would pass the comparison and have its value decoded.\<close>

lemma OnFieldModification_null_field:
  "OnFieldModification demo_host 3 nullptr 9 init
     = Inr (init\<lparr>calls := [Call_GetStringUTFChars 9, Call_ReleaseStringUTFChars 9 106]\<rparr>)"
  by (simp add: OnFieldModification_def demo_host_def demo_mem_def c_str_def NUL_def
      THREAD_TO_CATCH_def nullptr_def issue_def init_def Let_def)

text \<open>
  C1, as the code has it. Over any sequence of events the handlers get through, the watch is
  requested once for each class-load event whose resolved signature is
  \<open>Ljava/lang/Thread;\<close>, in the order of these events, and for no other event; so it is
  requested at most once when at most one such event is delivered. Events that lead to no
  request leave the stored identities as they were, and after the last event that leads to
  one the stored identities are those of its class: a later matching class-load event
  requests the watch again and overwrites them.
\<close>

theorem run_watch_requests:
  assumes "run evs s = Inr s'"
  shows "watch_requests s' = watch_requests s @ arming_requests evs
       \<and> (length (arming_requests evs) \<le> 1
            \<longrightarrow> length (watch_requests s') \<le> length (watch_requests s) + 1)
       \<and> (arming_requests evs = []
            \<longrightarrow> thread_start s' = thread_start s \<and> thread_name_field s' = thread_name_field s)
       \<and> (\<forall>pre h klass post.
             evs = pre @ (h, ClassLoadEv klass) # post
             \<and> resolved_signature h klass = Some Thread_signature
             \<and> arming_requests post = []
            \<longrightarrow> thread_start s' = GetMethodID h klass ''start'' ''()V''
              \<and> thread_name_field s' = GetFieldID h klass ''name'' ''Ljava/lang/String;'')"
proof -
  have c1: "watch_requests s' = watch_requests s @ arming_requests evs"
    by (rule run_watch_requests_aux [OF assms])
  have c2: "length (arming_requests evs) \<le> 1
      \<longrightarrow> length (watch_requests s') \<le> length (watch_requests s) + 1"
    by (simp add: c1)
  have c3: "arming_requests evs = []
      \<longrightarrow> thread_start s' = thread_start s \<and> thread_name_field s' = thread_name_field s"
    using run_globals_aux [OF assms] by blast
  have c4: "\<forall>pre h klass post.
      evs = pre @ (h, ClassLoadEv klass) # post
      \<and> resolved_signature h klass = Some Thread_signature
      \<and> arming_requests post = []
      \<longrightarrow> thread_start s' = GetMethodID h klass ''start'' ''()V''
        \<and> thread_name_field s' = GetFieldID h klass ''name'' ''Ljava/lang/String;''"
  proof (intro allI impI)
    fix pre h klass post
    assume a: "evs = pre @ (h, ClassLoadEv klass) # post
      \<and> resolved_signature h klass = Some Thread_signature
      \<and> arming_requests post = []"
    with assms have "(case run pre s of Inl err \<Rightarrow> Inl err
        | Inr s1 \<Rightarrow> run ((h, ClassLoadEv klass) # post) s1) = Inr s'"
      by (simp add: run_append)
    then obtain s1 where s1: "run ((h, ClassLoadEv klass) # post) s1 = Inr s'"
      by (cases "run pre s") simp_all
    then obtain s2 where s2: "deliver h (ClassLoadEv klass) s1 = Inr s2" "run post s2 = Inr s'"
      by (cases "deliver h (ClassLoadEv klass) s1") simp_all
    from a have rs: "resolved_signature h klass = Some Thread_signature"
      and np: "arming_requests post = []"
      by simp_all
    from deliver_arming_globals [OF s2(1) rs] run_globals_aux [OF s2(2) np]
    show "thread_start s' = GetMethodID h klass ''start'' ''()V''
        \<and> thread_name_field s' = GetFieldID h klass ''name'' ''Ljava/lang/String;''"
      by simp
  qed
  from c1 c2 c3 c4 show ?thesis
    by (intro conjI)
qed

lemma ClassLoad_demo_4:
  "ClassLoad demo_host 4 init
     = Inr \<lparr>thread_start = 24, thread_name_field = 34,
            calls = [Call_GetClassSignature 4, Call_GetMethodID 4 ''start'' ''()V'',
                     Call_GetFieldID 4 ''name'' ''Ljava/lang/String;'',
                     Call_SetFieldModificationWatch 4 34, Call_Deallocate 100],
            cerr = []\<rparr>"
  by (simp add: ClassLoad_def getClassSignature_def demo_host_def demo_mem_def c_str_def
      NUL_def Thread_signature_def Holder_from_def get_def nullptr_def Holder_destroy_def
      deallocate_def valid_def issue_def init_def Let_def)

lemma ClassLoad_demo_5:
  "ClassLoad demo_host 5
       \<lparr>thread_start = 24, thread_name_field = 34,
          calls = [Call_GetClassSignature 4, Call_GetMethodID 4 ''start'' ''()V'',
                   Call_GetFieldID 4 ''name'' ''Ljava/lang/String;'',
                   Call_SetFieldModificationWatch 4 34, Call_Deallocate 100],
          cerr = []\<rparr>
     = Inr \<lparr>thread_start = 25, thread_name_field = 35,
            calls = [Call_GetClassSignature 4, Call_GetMethodID 4 ''start'' ''()V'',
                     Call_GetFieldID 4 ''name'' ''Ljava/lang/String;'',
                     Call_SetFieldModificationWatch 4 34, Call_Deallocate 100,
                     Call_GetClassSignature 5, Call_GetMethodID 5 ''start'' ''()V'',
                     Call_GetFieldID 5 ''name'' ''Ljava/lang/String;'',
                     Call_SetFieldModificationWatch 5 35, Call_Deallocate 100],
            cerr = []\<rparr>"
  by (simp add: ClassLoad_def getClassSignature_def demo_host_def demo_mem_def c_str_def
      NUL_def Thread_signature_def Holder_from_def get_def nullptr_def Holder_destroy_def
      deallocate_def valid_def issue_def Let_def)

theorem run_watch_requests_witness:
  "run [(demo_host, ClassLoadEv 4), (demo_host, ClassLoadEv 5)] init
     = Inr (state_of (run [(demo_host, ClassLoadEv 4), (demo_host, ClassLoadEv 5)] init))
   \<and> watch_requests (state_of (run [(demo_host, ClassLoadEv 4), (demo_host, ClassLoadEv 5)] init))
       = [Call_SetFieldModificationWatch 4 34, Call_SetFieldModificationWatch 5 35]"
proof -
  let ?evs = "[(demo_host, ClassLoadEv 4), (demo_host, ClassLoadEv 5)]"
  have a: "run ?evs init = Inr (state_of (run ?evs init))"
    by (simp add: ClassLoad_demo_4 ClassLoad_demo_5 state_of_simps)
  have b: "arming_requests ?evs
      = [Call_SetFieldModificationWatch 4 34, Call_SetFieldModificationWatch 5 35]"
    by (simp add: arming_requests_def resolved_signature_def demo_host_def demo_mem_def
        c_str_def NUL_def Thread_signature_def nullptr_def)
  have c: "watch_requests init = []"
    by (simp add: watch_requests_def init_def)
  from run_watch_requests [OF a] b c a show ?thesis
    by simp
qed

text \<open>
  C1 as the specification states it fails: two class-load events whose resolved signature is
  \<open>Ljava/lang/Thread;\<close> both request the watch, and the second overwrites the identities
  the first stored.
\<close>

theorem rearm_counterexample:
  "watch_requests (state_of (run [(demo_host, ClassLoadEv 4)] init))
     = [Call_SetFieldModificationWatch 4 34]
   \<and> thread_start (state_of (run [(demo_host, ClassLoadEv 4)] init)) = 24
   \<and> thread_name_field (state_of (run [(demo_host, ClassLoadEv 4)] init)) = 34
   \<and> resolved_signature demo_host 5 = Some Thread_signature
   \<and> watch_requests (state_of (run [(demo_host, ClassLoadEv 4), (demo_host, ClassLoadEv 5)] init))
       = [Call_SetFieldModificationWatch 4 34, Call_SetFieldModificationWatch 5 35]
   \<and> thread_start (state_of (run [(demo_host, ClassLoadEv 4), (demo_host, ClassLoadEv 5)] init)) = 25
   \<and> thread_name_field (state_of (run [(demo_host, ClassLoadEv 4), (demo_host, ClassLoadEv 5)] init)) = 35"
proof -
  have "resolved_signature demo_host 5 = Some Thread_signature"
    by (simp add: resolved_signature_def demo_host_def demo_mem_def c_str_def NUL_def
        Thread_signature_def nullptr_def)
  then show ?thesis
    by (simp add: ClassLoad_demo_4 ClassLoad_demo_5 state_of_simps watch_requests_def)
qed

subsection \<open>The guard\<close>

text \<open>Construction from a pointer, a move into a new guard and the destruction of both:
  the pointer is freed once if it is not null, and never if it is.\<close>

lemma move_construct_scope_calls:
  "calls (move_construct_scope p s)
     = calls s @ (if p = nullptr then [] else [Call_Deallocate p])"
  by (simp add: move_construct_scope_def Holder_move_def Holder_default_def Holder_from_def
      Holder_destroy_def deallocate_def valid_def issue_def Let_def)

lemma Holder_move_source_empty:
  "Holder_move (Holder_from p) s = (Holder_from p, Holder_from nullptr, s)"
  by (simp add: Holder_move_def Holder_default_def Holder_from_def deallocate_def valid_def
      Let_def)

lemma Holder_destroy_empty: "Holder_destroy (Holder_from nullptr) s = s"
  by (simp add: Holder_destroy_def deallocate_def valid_def Holder_from_def)

text \<open>
  C2 fails on move assignment. The move assignment operator of \<open>Holder\<close> is defaulted, so
  it copies the pointer and leaves the source as it was: of two guards built from the
  buffers 101 and 102, the first assigned from the second, both end up holding 102. When
  the scope ends 102 is freed twice and 101 never.
\<close>

theorem move_assign_double_release:
  "Holder_move_assign (Holder_from 101) (Holder_from 102) = (Holder_from 102, Holder_from 102)
   \<and> calls (move_assign_scope 101 102 init) = [Call_Deallocate 102, Call_Deallocate 102]"
  by (simp add: move_assign_scope_def Holder_move_assign_def Holder_from_def
      Holder_destroy_def deallocate_def valid_def issue_def init_def nullptr_def)

subsection \<open>Failing host queries\<close>

text \<open>
  C3 fails when the host cannot give the signature of a loaded class: \<open>getClassSignature\<close>
  returns an empty guard and \<open>ClassLoad\<close> builds a \<open>std::string\<close> from its null pointer,
  so the run of the agent ends there, in undefined behaviour, and not with the handler
  returning.
\<close>

theorem run_signature_failure:
  "run [(no_signature_host, ClassLoadEv 4), (demo_host, ClassLoadEv 5)] init
     = Inl (NullStringConstruct,
            init\<lparr>calls := [Call_GetClassSignature 4],
                 cerr := ''failed to take class signature''\<rparr>)"
  by (simp add: ClassLoad_def getClassSignature_def no_signature_host_def demo_host_def
      Holder_from_def get_def nullptr_def issue_def print_def init_def)

text \<open>
  C4 fails for the same reason: on a class whose signature the host cannot give,
  \<open>ClassLoad\<close> does not return.
\<close>

theorem ClassLoad_signature_failure:
  "GetClassSignature no_signature_host 4 = None
   \<and> ClassLoad no_signature_host 4 init
       = Inl (NullStringConstruct,
              init\<lparr>calls := [Call_GetClassSignature 4],
                   cerr := ''failed to take class signature''\<rparr>)"
  by (simp add: ClassLoad_def getClassSignature_def no_signature_host_def demo_host_def
      Holder_from_def get_def nullptr_def issue_def print_def init_def)

text \<open>
  C8 fails on both kinds of failure. When the host cannot give the declaring class of a
  frame's method, the loop writes its warning and then reads the class handle it never
  received; when the host cannot give a method's name, the loop streams the null pointer of
  the empty guard. Either way the capture ends in undefined behaviour at the first such
  frame: no line with a placeholder is written and no later frame is rendered.
\<close>

theorem printStackTrace_frame_failure:
  "printStackTrace no_declaring_class_host 3 init
     = Inl (UninitializedClassRead,
            init\<lparr>calls := [Call_GetThreadInfo 3, Call_GetStackTrace 3 2 10,
                           Call_GetMethodDeclaringClass 13],
                 cerr := ''========= main ==============\<newline>frame skip. Failed to get classID\<newline>''\<rparr>)
   \<and> printStackTrace no_method_name_host 3 init
     = Inl (NullStreamInsert,
            init\<lparr>calls := [Call_GetThreadInfo 3, Call_GetStackTrace 3 2 10,
                           Call_GetMethodDeclaringClass 13, Call_GetClassSignature 2,
                           Call_GetMethodName 13],
                 cerr := ''========= main ==============\<newline>failed to take class signatureLjava/lang/Object;#''\<rparr>)"
  by (simp add: printStackTrace_def print_header_def GetStackTrace_def MAX_FRAMES_def
      render_frame_def getClassSignature_def getMethodName_def stream_cstr_def Let_def
      no_declaring_class_host_def no_method_name_host_def demo_host_def demo_stack_def
      demo_mem_def c_str_def NUL_def nullptr_def Holder_from_def get_def issue_def print_def
      init_def)


end
